theory Spec2Isabelle
  imports Complex_Main "HOL-Library.Sublist"
begin

section \<open>JavaScript strings\<close>

text \<open>
  A JavaScript string is modelled as a \<open>string\<close>: a list of 8-bit code units, read as
  the Latin-1 range of UTF-16. Code units above 255 are outside the model.
  \<open>\s\<close> and \<open>trim\<close> use the same set of white space characters; in this range it is
  TAB, LF, VT, FF, CR, SPACE and NBSP.
\<close>

definition is_space :: "char \<Rightarrow> bool" where
  "is_space c \<longleftrightarrow>
     c = CHR '' '' \<or> c = CHR 0x09 \<or> c = CHR 0x0A \<or> c = CHR 0x0B \<or> c = CHR 0x0C
     \<or> c = CHR 0x0D \<or> c = CHR 0xA0"

definition is_digit :: "char \<Rightarrow> bool" where
  "is_digit c \<longleftrightarrow> (let n = (of_char c :: nat) in 48 \<le> n \<and> n \<le> 57)"

definition is_upper :: "char \<Rightarrow> bool" where
  "is_upper c \<longleftrightarrow> (let n = (of_char c :: nat) in 65 \<le> n \<and> n \<le> 90)"

definition is_lower :: "char \<Rightarrow> bool" where
  "is_lower c \<longleftrightarrow> (let n = (of_char c :: nat) in 97 \<le> n \<and> n \<le> 122)"

text \<open>\<open>\w\<close> is \<open>[A-Za-z0-9_]\<close>.\<close>

definition is_word :: "char \<Rightarrow> bool" where
  "is_word c \<longleftrightarrow> is_upper c \<or> is_lower c \<or> is_digit c \<or> c = CHR ''_''"

text \<open>\<open>String.prototype.toLowerCase\<close> on one code unit of the Latin-1 range.\<close>

definition to_lower :: "char \<Rightarrow> char" where
  "to_lower c =
     (let n = (of_char c :: nat) in
      if (65 \<le> n \<and> n \<le> 90) \<or> (192 \<le> n \<and> n \<le> 222 \<and> n \<noteq> 215)
      then char_of (n + 32) else c)"

definition toLowerCase :: "string \<Rightarrow> string" where
  "toLowerCase s = map to_lower s"

definition trim :: "string \<Rightarrow> string" where
  "trim s = rev (dropWhile is_space (rev (dropWhile is_space s)))"

fun starts_with :: "string \<Rightarrow> string \<Rightarrow> bool" where
  "starts_with [] s = True"
| "starts_with (p # ps) [] = False"
| "starts_with (p # ps) (c # cs) = (p = c \<and> starts_with ps cs)"

text \<open>Index of the first occurrence of \<open>sub\<close> in \<open>s\<close>, \<open>None\<close> for JavaScript's \<open>-1\<close>.\<close>

fun find_sub :: "string \<Rightarrow> string \<Rightarrow> nat option" where
  "find_sub sub [] = (if sub = [] then Some 0 else None)"
| "find_sub sub (c # cs) =
     (if starts_with sub (c # cs) then Some 0 else map_option Suc (find_sub sub cs))"

text \<open>\<open>s.indexOf(sub, start)\<close>: the start position is clamped to the length of \<open>s\<close>.\<close>

definition indexOf :: "string \<Rightarrow> string \<Rightarrow> nat \<Rightarrow> nat option" where
  "indexOf s sub start =
     (let f = min start (length s) in map_option (\<lambda>i. i + f) (find_sub sub (drop f s)))"

text \<open>\<open>s.includes(sub)\<close>.\<close>

definition str_includes :: "string \<Rightarrow> string \<Rightarrow> bool" where
  "str_includes s sub \<longleftrightarrow> find_sub sub s \<noteq> None"

text \<open>\<open>s.slice(a, b)\<close> for \<open>0 \<le> a\<close> and \<open>0 \<le> b\<close>.\<close>

definition slice :: "'a list \<Rightarrow> nat \<Rightarrow> nat \<Rightarrow> 'a list" where
  "slice s a b = take (b - a) (drop a s)"

text \<open>\<open>xs.join(' ')\<close>.\<close>

fun join_sp :: "string list \<Rightarrow> string" where
  "join_sp [] = []"
| "join_sp [x] = x"
| "join_sp (x # y # ys) = x @ '' '' @ join_sp (y # ys)"

text \<open>\<open>s.replace(/\r\n/g, '\n')\<close>.\<close>

fun replace_crlf :: "string \<Rightarrow> string" where
  "replace_crlf [] = []"
| "replace_crlf [c] = [c]"
| "replace_crlf (c # d # cs) =
     (if c = CHR 0x0D \<and> d = CHR 0x0A then CHR 0x0A # replace_crlf cs
      else c # replace_crlf (d # cs))"

text \<open>\<open>s.replace(/\s+/g, ' ')\<close>: every maximal run of white space becomes one space.\<close>

function collapse_ws :: "string \<Rightarrow> string" where
  "collapse_ws [] = []"
| "collapse_ws (c # cs) =
     (if is_space c then CHR '' '' # collapse_ws (dropWhile is_space cs)
      else c # collapse_ws cs)"
  by pat_completeness auto
termination
  by (relation "measure length") (auto simp: length_dropWhile_le less_Suc_eq_le)

section \<open>Regular expressions\<close>

text \<open>
  A regular expression is a backtracking matcher in continuation-passing style. It reads
  the input at one position, given as the text before the position (reversed, for
  look-behind and \<open>\b\<close>) and the text from the position on, and returns the number of code
  units the match consumes. Greedy quantifiers try the longest repetition first and give
  characters back one at a time, as the ECMAScript matcher does.
\<close>

type_synonym matcher = "string \<Rightarrow> string \<Rightarrow> nat option"

definition m_end :: matcher where
  "m_end l r = Some 0"

fun m_chr :: "(char \<Rightarrow> bool) \<Rightarrow> matcher \<Rightarrow> matcher" where
  "m_chr p k l [] = None"
| "m_chr p k l (c # cs) = (if p c then map_option Suc (k (c # l) cs) else None)"

fun m_lit :: "string \<Rightarrow> matcher \<Rightarrow> matcher" where
  "m_lit [] k l r = k l r"
| "m_lit (x # xs) k l [] = None"
| "m_lit (x # xs) k l (c # cs) =
     (if x = c then map_option Suc (m_lit xs k (c # l) cs) else None)"

text \<open>Greedy \<open>p*\<close> and \<open>p+\<close> over a character class \<open>p\<close>.\<close>

fun m_star :: "(char \<Rightarrow> bool) \<Rightarrow> matcher \<Rightarrow> matcher" where
  "m_star p k l [] = k l []"
| "m_star p k l (c # cs) =
     (if p c then
        (case m_star p k (c # l) cs of
           Some n \<Rightarrow> Some (Suc n)
         | None \<Rightarrow> k l (c # cs))
      else k l (c # cs))"

definition m_plus :: "(char \<Rightarrow> bool) \<Rightarrow> matcher \<Rightarrow> matcher" where
  "m_plus p k = m_chr p (m_star p k)"

text \<open>Greedy \<open>p{lo,hi}\<close>; \<open>n\<close> counts the repetitions taken so far.\<close>

fun m_rep :: "(char \<Rightarrow> bool) \<Rightarrow> nat \<Rightarrow> nat \<Rightarrow> nat \<Rightarrow> matcher \<Rightarrow> matcher" where
  "m_rep p lo hi n k l [] = (if lo \<le> n then k l [] else None)"
| "m_rep p lo hi n k l (c # cs) =
     (if p c \<and> n < hi then
        (case m_rep p lo hi (Suc n) k (c # l) cs of
           Some j \<Rightarrow> Some (Suc j)
         | None \<Rightarrow> if lo \<le> n then k l (c # cs) else None)
      else if lo \<le> n then k l (c # cs) else None)"

text \<open>\<open>\b\<close>: exactly one of the two neighbours is a word character.\<close>

definition at_word_boundary :: "string \<Rightarrow> string \<Rightarrow> bool" where
  "at_word_boundary l r \<longleftrightarrow>
     (case l of [] \<Rightarrow> False | a # _ \<Rightarrow> is_word a) \<noteq> (case r of [] \<Rightarrow> False | b # _ \<Rightarrow> is_word b)"

definition m_wordb :: "matcher \<Rightarrow> matcher" where
  "m_wordb k l r = (if at_word_boundary l r then k l r else None)"

text \<open>
  One call of \<open>RegExp.prototype.exec\<close> on a regular expression with the \<open>g\<close> flag:
  the search starts at \<open>lastIndex\<close>; a match at \<open>[s, s + n)\<close> sets \<open>lastIndex\<close> to its
  end, a failure resets it to 0. \<open>find_match\<close> returns how many positions were skipped
  and the length of the match.
\<close>

fun find_match :: "matcher \<Rightarrow> string \<Rightarrow> string \<Rightarrow> (nat \<times> nat) option" where
  "find_match m l [] = map_option (Pair 0) (m l [])"
| "find_match m l (c # cs) =
     (case m l (c # cs) of
        Some n \<Rightarrow> Some (0, n)
      | None \<Rightarrow> map_option (\<lambda>(s, n). (Suc s, n)) (find_match m (c # l) cs))"

definition regex_exec :: "matcher \<Rightarrow> string \<Rightarrow> nat \<Rightarrow> (nat \<times> nat) option \<times> nat" where
  "regex_exec m text lastIndex =
     (if lastIndex > length text then (None, 0)
      else case find_match m (rev (take lastIndex text)) (drop lastIndex text) of
             None \<Rightarrow> (None, 0)
           | Some (s, n) \<Rightarrow> (Some (lastIndex + s, n), lastIndex + s + n))"

text \<open>
  \<open>String.prototype.split\<close> with a regular expression without capture groups: \<open>acc\<close> is
  the piece since the last separator, reversed. A match that is empty and ends where the
  last separator ended is skipped.
\<close>

function js_split :: "matcher \<Rightarrow> string \<Rightarrow> string \<Rightarrow> string \<Rightarrow> string list" where
  "js_split m l acc [] = [rev acc]"
| "js_split m l acc (c # cs) =
     (case m l (c # cs) of
        None \<Rightarrow> js_split m (c # l) (c # acc) cs
      | Some n \<Rightarrow>
          if n = 0 then
            (if acc = [] then js_split m (c # l) (c # acc) cs
             else rev acc # js_split m (c # l) [c] cs)
          else rev acc # js_split m (rev (take n (c # cs)) @ l) [] (drop n (c # cs)))"
  by pat_completeness auto
termination
  by (relation "measure (\<lambda>(m, l, acc, r). length r)") auto

definition split_regex :: "matcher \<Rightarrow> string \<Rightarrow> string list" where
  "split_regex m s = (if s = [] then (if m [] [] = None then [[]] else []) else js_split m [] [] s)"

section \<open>Bundles and chunks\<close>

text \<open>
  A chunk object of a bundle, with the fields the verifier and the retriever read or write.
  A missing \<open>text\<close> behaves like the empty string in every function below; a missing
  \<open>embedding\<close> or \<open>embedding_id\<close> is \<open>None\<close>. A bundle whose \<open>chunks\<close> field is missing
  or not an array has \<open>chunks = None\<close>.
\<close>

record chunk =
  chunk_id :: string
  chunk_text :: string
  embedding :: "real list option"
  embedding_id :: "string option"

record doc_bundle =
  bundle_id :: string
  chunks :: "chunk list option"

section \<open>The verifier (server/lib/verifier.js)\<close>

record verifier_options =
  normalizedMatchMinLen :: nat
  legalKeywords :: "string list"
  failOnUnknownChunkId :: bool

text \<open>
  The option \<open>sentenceSplitterRegex\<close> is fixed to its default, \<open>sentenceSplitterRegex\<close>
  below.
\<close>

definition DEFAULT_OPTIONS :: verifier_options where
  "DEFAULT_OPTIONS =
     \<lparr> normalizedMatchMinLen = 30,
       legalKeywords =
         [''terminate'', ''termination'', ''notice'', ''indemnify'', ''indemnity'', ''waive'',
          ''warranty'', ''liability'', ''liable'', ''penalty'', ''breach'', ''breaches'',
          ''governing law'', ''jurisdiction'', ''confidential'', ''confidentiality'',
          ''obligation'', ''rights'', ''termination'', ''renewal'', ''notice period'',
          ''non-compete'', ''severability'', ''assignment'', ''arbitration''],
       failOnUnknownChunkId = False \<rparr>"

text \<open>\<open>/(?<=\.)\s+|(?<=\?)\s+|(?<=\!)\s+/\<close>\<close>

definition sentenceSplitterRegex :: matcher where
  "sentenceSplitterRegex l r =
     (case (case l of a # _ \<Rightarrow> if a = CHR ''.'' then m_plus is_space m_end l r else None
                     | [] \<Rightarrow> None) of
        Some n \<Rightarrow> Some n
      | None \<Rightarrow>
     (case (case l of a # _ \<Rightarrow> if a = CHR ''?'' then m_plus is_space m_end l r else None
                     | [] \<Rightarrow> None) of
        Some n \<Rightarrow> Some n
      | None \<Rightarrow>
     (case l of a # _ \<Rightarrow> if a = CHR ''!'' then m_plus is_space m_end l r else None
              | [] \<Rightarrow> None)))"

text \<open>\<open>[A-Za-z0-9._:-]\<close>\<close>

definition chunk_id_class :: "char \<Rightarrow> bool" where
  "chunk_id_class c \<longleftrightarrow>
     is_upper c \<or> is_lower c \<or> is_digit c \<or> c = CHR ''.'' \<or> c = CHR ''_'' \<or> c = CHR '':''
     \<or> c = CHR ''-''"

text \<open>
  The three regular expressions that are run in an \<open>exec\<close> loop:
  \<open>CHUNK_ID_REGEX = /\b(bundle-[A-Za-z0-9._:-]+-chunk-\d+)\b/g\<close>, one object for the
  whole module, and \<open>dq = /"([^"]{5,500})"/g\<close>, \<open>sq = /'([^']{5,500})'/g\<close>, created
  afresh by each call of \<open>extractQuotedSnippets\<close>.
\<close>

datatype regex = CHUNK_ID_REGEX | DQ | SQ

fun matcher_of :: "regex \<Rightarrow> matcher" where
  "matcher_of CHUNK_ID_REGEX =
     m_wordb (m_lit ''bundle-'' (m_plus chunk_id_class
       (m_lit ''-chunk-'' (m_plus is_digit (m_wordb m_end)))))"
| "matcher_of DQ =
     m_chr (\<lambda>c. c = CHR 0x22) (m_rep (\<lambda>c. c \<noteq> CHR 0x22) 5 500 0
       (m_chr (\<lambda>c. c = CHR 0x22) m_end))"
| "matcher_of SQ =
     m_chr (\<lambda>c. c = CHR 0x27) (m_rep (\<lambda>c. c \<noteq> CHR 0x27) 5 500 0
       (m_chr (\<lambda>c. c = CHR 0x27) m_end))"

lemma m_chr_pos: "m_chr p k l r = Some n \<Longrightarrow> 0 < n"
  by (cases r) (auto split: if_splits)

lemma m_lit_pos: "s \<noteq> [] \<Longrightarrow> m_lit s k l r = Some n \<Longrightarrow> 0 < n"
  by (cases s; cases r) (auto split: if_splits)

lemma matcher_of_pos: "matcher_of rx l r = Some n \<Longrightarrow> 0 < n"
proof (cases rx)
  case CHUNK_ID_REGEX
  assume "matcher_of rx l r = Some n"
  with CHUNK_ID_REGEX show ?thesis
    by (auto simp: m_wordb_def split: if_splits dest!: m_lit_pos [rotated])
next
  case DQ
  assume "matcher_of rx l r = Some n"
  with DQ show ?thesis by (auto dest: m_chr_pos)
next
  case SQ
  assume "matcher_of rx l r = Some n"
  with SQ show ?thesis by (auto dest: m_chr_pos)
qed

lemma find_match_sound:
  "find_match m l r = Some (s, n) \<Longrightarrow> \<exists>l' r'. m l' r' = Some n"
proof (induction r arbitrary: l s)
  case Nil
  then show ?case by auto
next
  case (Cons c cs)
  show ?case
  proof (cases "m l (c # cs)")
    case None
    with Cons.prems obtain s' where "find_match m (c # l) cs = Some (s', n)"
      by (auto split: prod.splits)
    then show ?thesis by (rule Cons.IH)
  next
    case (Some k)
    with Cons.prems have "k = n" by simp
    with Some show ?thesis by blast
  qed
qed

lemma regex_exec_advances:
  assumes "regex_exec (matcher_of rx) s li = (Some (p, n), li')"
  shows "li < li' \<and> li \<le> length s"
proof -
  from assms have le: "li \<le> length s"
    by (auto simp: regex_exec_def split: if_splits)
  from assms le obtain k where
    fm: "find_match (matcher_of rx) (rev (take li s)) (drop li s) = Some (k, n)"
    and li': "li' = li + k + n"
    by (auto simp: regex_exec_def split: if_splits option.splits prod.splits)
  from find_match_sound [OF fm] have "0 < n" by (auto dest: matcher_of_pos)
  with li' le show ?thesis by simp
qed

text \<open>
  \<open>while ((m = rx.exec(s)) !== null) ...\<close>: all matches \<open>(start, length)\<close> found from
  \<open>lastIndex\<close> on. The loop ends with the failed \<open>exec\<close> that resets \<open>lastIndex\<close> to 0.
\<close>

function exec_all :: "regex \<Rightarrow> string \<Rightarrow> nat \<Rightarrow> (nat \<times> nat) list" where
  "exec_all rx s lastIndex =
     (case regex_exec (matcher_of rx) s lastIndex of
        (None, _) \<Rightarrow> []
      | (Some (p, n), lastIndex') \<Rightarrow> (p, n) # exec_all rx s lastIndex')"
  by pat_completeness auto
termination
proof (relation "measure (\<lambda>(rx, s, li). Suc (length s) - li)")
  show "wf (measure (\<lambda>(rx, s, li). Suc (length s) - li))" by simp
next
  fix rx s lastIndex x y p z n
  assume "(x, y) = regex_exec (matcher_of rx) s lastIndex" "x = Some z" "(p, n) = z"
  then have "regex_exec (matcher_of rx) s lastIndex = (Some (p, n), y)" by simp
  from regex_exec_advances [OF this]
  show "((rx, s, y), (rx, s, lastIndex)) \<in> measure (\<lambda>(rx, s, li). Suc (length s) - li)"
    by auto
qed

declare exec_all.simps [simp del]

text \<open>\<open>normalizeText\<close>: collapse white space, trim, lower case.\<close>

definition normalizeText :: "string \<Rightarrow> string" where
  "normalizeText s = toLowerCase (trim (collapse_ws s))"

text \<open>A JavaScript \<open>Set\<close> keeps its elements in insertion order.\<close>

definition set_add :: "'a list \<Rightarrow> 'a \<Rightarrow> 'a list" where
  "set_add xs x = (if List.member xs x then xs else xs @ [x])"

text \<open>
  \<open>extractChunkIds\<close>. The module's \<open>CHUNK_ID_REGEX\<close> object carries \<open>lastIndex\<close> from
  one use to the next, so the function takes it and returns it. An empty text returns
  before the regular expression is used.
\<close>

definition extractChunkIds :: "nat \<Rightarrow> string \<Rightarrow> string list \<times> nat" where
  "extractChunkIds lastIndex s =
     (if s = [] then ([], lastIndex)
      else (foldl set_add [] (map (\<lambda>(p, n). slice s p (p + n)) (exec_all CHUNK_ID_REGEX s lastIndex)),
            0))"

text \<open>\<open>mapChunksById\<close>: a later chunk with the same id replaces an earlier one.\<close>

definition mapChunksById :: "doc_bundle option \<Rightarrow> (string \<rightharpoonup> chunk)" where
  "mapChunksById b =
     (case b of
        None \<Rightarrow> Map.empty
      | Some bd \<Rightarrow>
          (case chunks bd of
             None \<Rightarrow> Map.empty
           | Some cs \<Rightarrow> foldl (\<lambda>m c. if chunk_id c \<noteq> [] then m(chunk_id c \<mapsto> c) else m) Map.empty cs))"

text \<open>\<open>extractQuotedSnippets\<close>: the first capture group of every match, \<open>dq\<close> first.\<close>

definition extractQuotedSnippets :: "string \<Rightarrow> string list" where
  "extractQuotedSnippets s =
     (if s = [] then []
      else map (\<lambda>(p, n). slice s (p + 1) (p + n - 1)) (exec_all DQ s 0)
         @ map (\<lambda>(p, n). slice s (p + 1) (p + n - 1)) (exec_all SQ s 0))"

datatype match_type = Exact | Normalized | Prefix | ChunkPrefix | NoMatch

text \<open>\<open>doesSnippetMatchChunk\<close> returns \<open>(matched, match_type)\<close>.\<close>

definition doesSnippetMatchChunk :: "string \<Rightarrow> string \<Rightarrow> verifier_options \<Rightarrow> bool \<times> match_type" where
  "doesSnippetMatchChunk snippet chunkText opts =
     (if snippet = [] \<or> chunkText = [] then (False, NoMatch)
      else if str_includes chunkText snippet then (True, Exact)
      else
        let nSnippet = normalizeText snippet;
            nChunk = normalizeText chunkText
        in if length nSnippet \<ge> (if normalizedMatchMinLen opts \<noteq> 0 then normalizedMatchMinLen opts
                                   else normalizedMatchMinLen DEFAULT_OPTIONS)
              \<and> str_includes nChunk nSnippet
           then (True, Normalized)
           else
             let prefixLen = min 40 (length nSnippet)
             in if prefixLen \<ge> 12 \<and> str_includes nChunk (slice nSnippet 0 prefixLen)
                then (True, Prefix)
                else (False, NoMatch))"

record matched_snippet =
  ms_chunk_id :: string
  ms_snippet :: "string option"
  ms_matched :: bool
  ms_match_type :: match_type

record verification_stats =
  num_chunks_in_bundle :: nat
  num_cited_chunks :: nat
  citation_coverage :: rat

record verification_result =
  ok :: bool
  cited_chunks :: "string list"
  unknown_chunk_ids :: "string list"
  matched_snippets :: "matched_snippet list"
  missing_snippet_matches :: "string list"
  potential_hallucinations :: "(string \<times> string) list"
  stats :: verification_stats
  error :: "string option"

text \<open>The inner loop over the quoted snippets: the first one that matches the chunk.\<close>

fun first_snippet_match ::
  "verifier_options \<Rightarrow> string \<Rightarrow> string list \<Rightarrow> (string \<times> match_type) option" where
  "first_snippet_match opts chunkText [] = None"
| "first_snippet_match opts chunkText (snippet # rest) =
     (let (matched, mt) = doesSnippetMatchChunk snippet chunkText opts
      in if matched then Some (snippet, mt) else first_snippet_match opts chunkText rest)"

text \<open>
  Step 4 for one cited id: the entry pushed to \<open>matched_snippets\<close>, and whether the id
  is also pushed to \<open>missing_snippet_matches\<close>.
\<close>

definition check_cited ::
  "verifier_options \<Rightarrow> (string \<rightharpoonup> chunk) \<Rightarrow> string list \<Rightarrow> string \<Rightarrow> string
   \<Rightarrow> matched_snippet \<times> bool" where
  "check_cited opts chunkMap quotedSnippets responseText chunkId =
     (case chunkMap chunkId of
        None \<Rightarrow>
          (\<lparr> ms_chunk_id = chunkId, ms_snippet = None, ms_matched = False, ms_match_type = NoMatch \<rparr>,
           False)
      | Some c \<Rightarrow>
          (case first_snippet_match opts (chunk_text c) quotedSnippets of
             Some (snippet, mt) \<Rightarrow>
               (\<lparr> ms_chunk_id = chunkId, ms_snippet = Some snippet, ms_matched = True,
                  ms_match_type = mt \<rparr>, False)
           | None \<Rightarrow>
               let probe = slice (normalizeText (chunk_text c)) 0 120
               in if length probe \<ge> 12 \<and> str_includes (normalizeText responseText) probe
                  then (\<lparr> ms_chunk_id = chunkId,
                          ms_snippet = Some (slice (chunk_text c) 0 (min 200 (length (chunk_text c)))),
                          ms_matched = True, ms_match_type = ChunkPrefix \<rparr>, False)
                  else (\<lparr> ms_chunk_id = chunkId, ms_snippet = None, ms_matched = False,
                          ms_match_type = NoMatch \<rparr>, True)))"

definition hallucination_reason :: "string \<Rightarrow> string" where
  "hallucination_reason kw =
     ''contains legal keyword '' @ [CHR 0x22] @ kw @ [CHR 0x22] @ '' but no chunk_id cited''"

text \<open>
  Step 5, the loop over the sentences. \<open>CHUNK_ID_REGEX.test(sent)\<close> is one \<open>exec\<close> of
  the module's regular expression: it starts at the \<open>lastIndex\<close> left by the sentence
  before.
\<close>

fun flag_sentences ::
  "verifier_options \<Rightarrow> nat \<Rightarrow> string list \<Rightarrow> (string \<times> string) list \<times> nat" where
  "flag_sentences opts lastIndex [] = ([], lastIndex)"
| "flag_sentences opts lastIndex (sent # rest) =
     (let (m, lastIndex') = regex_exec (matcher_of CHUNK_ID_REGEX) sent lastIndex
      in if m \<noteq> None then flag_sentences opts lastIndex' rest
         else
           (case List.find (\<lambda>kw. str_includes (toLowerCase sent) kw) (legalKeywords opts) of
              None \<Rightarrow> flag_sentences opts lastIndex' rest
            | Some kw \<Rightarrow>
                let (flagged, li) = flag_sentences opts lastIndex' rest
                in ((sent, hallucination_reason kw) # flagged, li)))"

text \<open>
  \<open>verifyResponseAgainstBundle\<close>, with the \<open>lastIndex\<close> of \<open>CHUNK_ID_REGEX\<close> before
  and after the call. \<open>opts\<close> is the option object after the defaults are merged in.
\<close>

definition verifyResponseAgainstBundle ::
  "nat \<Rightarrow> doc_bundle option \<Rightarrow> string \<Rightarrow> verifier_options \<Rightarrow> verification_result \<times> nat" where
  "verifyResponseAgainstBundle lastIndex b responseText opts =
     (case (case b of None \<Rightarrow> None | Some bd \<Rightarrow> chunks bd) of
        None \<Rightarrow>
          (\<lparr> ok = False, cited_chunks = [], unknown_chunk_ids = [], matched_snippets = [],
             missing_snippet_matches = [], potential_hallucinations = [],
             stats = \<lparr> num_chunks_in_bundle = 0, num_cited_chunks = 0, citation_coverage = 0 \<rparr>,
             error = Some ''Invalid bundle: no chunks'' \<rparr>, lastIndex)
      | Some cs \<Rightarrow>
          let chunkMap = mapChunksById b;
              (cited, li1) = extractChunkIds lastIndex responseText;
              unknown = filter (\<lambda>i. chunkMap i = None) cited
          in if failOnUnknownChunkId opts \<and> length unknown > 0
             then (\<lparr> ok = False, cited_chunks = cited, unknown_chunk_ids = unknown,
                     matched_snippets = [], missing_snippet_matches = [],
                     potential_hallucinations = [],
                     stats = \<lparr> num_chunks_in_bundle = length cs, num_cited_chunks = length cited,
                               citation_coverage = 0 \<rparr>,
                     error = None \<rparr>, li1)
             else
               let quotedSnippets = extractQuotedSnippets responseText;
                   checks = map (check_cited opts chunkMap quotedSnippets responseText) cited;
                   missing = map (ms_chunk_id \<circ> fst) (filter snd checks);
                   sentences = filter (\<lambda>x. x \<noteq> [])
                                 (map trim (split_regex sentenceSplitterRegex responseText));
                   (flagged, li2) = flag_sentences opts li1 sentences;
                   coverage = (if length cited > 0
                               then min 1 (of_nat (length cited) / of_nat (max 1 (length cs)))
                               else 0)
               in (\<lparr> ok = \<not> (length unknown > 0 \<or> length missing > 0 \<or> length flagged > 0),
                     cited_chunks = cited, unknown_chunk_ids = unknown,
                     matched_snippets = map fst checks, missing_snippet_matches = missing,
                     potential_hallucinations = flagged,
                     stats = \<lparr> num_chunks_in_bundle = length cs, num_cited_chunks = length cited,
                               citation_coverage = coverage \<rparr>,
                     error = None \<rparr>, li2))"

record qa_result = verification_result +
  retrieved_chunk_ids :: "string list"
  cited_retrieved_intersection :: "string list"
  cites_retrieved :: bool
  matched_from_retrieved :: "(string \<times> string \<times> match_type) list option"

text \<open>
  The fallback loop of \<open>verifyQAAnswer\<close> over the retrieved ids: a quoted snippet or the
  chunk's normalized prefix found in the answer.
\<close>

fun match_from_retrieved ::
  "verifier_options \<Rightarrow> (string \<rightharpoonup> chunk) \<Rightarrow> string \<Rightarrow> string list
   \<Rightarrow> (string \<times> string \<times> match_type) list" where
  "match_from_retrieved opts chunkMap answerText [] = []"
| "match_from_retrieved opts chunkMap answerText (rid # rest) =
     (case chunkMap rid of
        None \<Rightarrow> match_from_retrieved opts chunkMap answerText rest
      | Some c \<Rightarrow>
          (case first_snippet_match opts (chunk_text c) (extractQuotedSnippets answerText) of
             Some (snippet, mt) \<Rightarrow>
               (rid, snippet, mt) # match_from_retrieved opts chunkMap answerText rest
           | None \<Rightarrow>
               let probe = slice (normalizeText (chunk_text c)) 0 120
               in if length probe \<ge> 12 \<and> str_includes (normalizeText answerText) probe
                  then (rid, slice (chunk_text c) 0 120, ChunkPrefix)
                       # match_from_retrieved opts chunkMap answerText rest
                  else match_from_retrieved opts chunkMap answerText rest))"

text \<open>
  \<open>verifyQAAnswer\<close>. \<open>retrievedChunkIds\<close> is \<open>None\<close> for an argument that is not an
  array.
\<close>

definition verifyQAAnswer ::
  "nat \<Rightarrow> doc_bundle option \<Rightarrow> string \<Rightarrow> string list option \<Rightarrow> verifier_options
   \<Rightarrow> qa_result \<times> nat" where
  "verifyQAAnswer lastIndex b answerText retrievedChunkIds opts =
     (let (baseResult, li) = verifyResponseAgainstBundle lastIndex b answerText opts;
          retrieved = (case retrievedChunkIds of Some ids \<Rightarrow> ids | None \<Rightarrow> []);
          intersection = filter (\<lambda>x. List.member retrieved x) (cited_chunks baseResult);
          cites0 = (length intersection > 0);
          matchedFromRetrieved =
            (if \<not> cites0 \<and> length retrieved > 0
             then match_from_retrieved opts (mapChunksById b) answerText retrieved else []);
          cites = (cites0 \<or> length matchedFromRetrieved > 0)
      in (verification_result.extend
            (baseResult \<lparr> ok := ok baseResult \<and> cites \<rparr>)
            (qa_result.fields retrieved intersection cites
               (if length matchedFromRetrieved > 0 then Some matchedFromRetrieved else None)),
          li))"

subsection \<open>Example data\<close>

text \<open>
  The bundle of the specification's example: one chunk \<open>bundle-x-chunk-001\<close> with the text
  \<open>The term is two years.\<close>, and an answer that quotes the chunk and cites it.
\<close>

definition example_chunk :: chunk where
  "example_chunk =
     \<lparr> chunk_id = ''bundle-x-chunk-001'', chunk_text = ''The term is two years.'',
       embedding = None, embedding_id = None \<rparr>"

definition example_bundle :: doc_bundle where
  "example_bundle = \<lparr> bundle_id = ''bundle-x'', chunks = Some [example_chunk] \<rparr>"

definition grounded_answer :: string where
  "grounded_answer =
     [CHR 0x22] @ ''The term is two years.'' @ [CHR 0x22] @ '' [bundle-x-chunk-001]''"

subsection \<open>The overall verdict\<close>

text \<open>
  The verdict is computed from the three lists of the report: \<open>ok\<close> is false exactly when
  one of them is not empty, also on the early return under \<open>failOnUnknownChunkId\<close>.
\<close>

lemma ok_from_report_lists:
  assumes "chunks b = Some cs"
  shows "let r = fst (verifyResponseAgainstBundle lastIndex (Some b) answer opts)
         in ok r \<longleftrightarrow>
              \<not> (unknown_chunk_ids r \<noteq> [] \<or> missing_snippet_matches r \<noteq> []
                  \<or> potential_hallucinations r \<noteq> [])"
  using assms
  by (auto simp: verifyResponseAgainstBundle_def Let_def split: prod.splits)

text \<open>
  C1. The claim says that \<open>ok\<close> is false when the answer cites an identifier that is not
  in the bundle. \<open>CHUNK_ID_REGEX\<close> keeps its \<open>lastIndex\<close> from one call to the next.
  The call on the answer of the example ends with \<open>lastIndex = 44\<close>, left by the test of
  its one sentence. In the next call, on the answer \<open>See bundle-x-chunk-999.\<close> of 23
  characters, \<open>extractChunkIds\<close> starts its search at 44, beyond the end of the answer,
  and finds no identifier: no citation is recorded, none is unknown, the sentence is
  skipped because it holds an identifier, and \<open>ok\<close> is true. From \<open>lastIndex = 0\<close> the
  same answer is reported with the unknown identifier and \<open>ok = false\<close>.
\<close>

theorem unknown_citation_accepted:
  "snd (verifyResponseAgainstBundle 0 (Some example_bundle) grounded_answer DEFAULT_OPTIONS) = 44
   \<and> (let r = fst (verifyResponseAgainstBundle 44 (Some example_bundle)
                     ''See bundle-x-chunk-999.'' DEFAULT_OPTIONS)
      in ok r \<and> cited_chunks r = [] \<and> unknown_chunk_ids r = [])
   \<and> (let r = fst (verifyResponseAgainstBundle 0 (Some example_bundle)
                     ''See bundle-x-chunk-999.'' DEFAULT_OPTIONS)
      in \<not> ok r \<and> unknown_chunk_ids r = [''bundle-x-chunk-999''])"
  by code_simp

subsection \<open>Sentences flagged as potential hallucinations\<close>

text \<open>
  C4. The claim says that no sentence containing a chunk identifier is ever flagged. The
  answer \<open>See bundle-x-chunk-001. Liability bundle-x-chunk-002.\<close> has two sentences. The
  test of the first one leaves \<open>lastIndex = 22\<close> in \<open>CHUNK_ID_REGEX\<close>; the test of the
  second one starts there, behind the start of its chunk identifier, and fails. The second
  sentence contains the keyword \<open>liability\<close> and is flagged, although it contains the
  chunk identifier \<open>bundle-x-chunk-002\<close>.
\<close>

theorem cited_sentence_flagged:
  "potential_hallucinations
     (fst (verifyResponseAgainstBundle 0 (Some example_bundle)
        ''See bundle-x-chunk-001. Liability bundle-x-chunk-002.'' DEFAULT_OPTIONS))
   = [(''Liability bundle-x-chunk-002.'', hallucination_reason ''liability'')]
   \<and> fst (extractChunkIds 0 ''Liability bundle-x-chunk-002.'') = [''bundle-x-chunk-002'']"
  by code_simp

subsection \<open>Verification against the retrieved chunks\<close>

text \<open>
  C10. With an empty list of retrieved identifiers, \<open>verifyQAAnswer\<close> reports
  \<open>cites_retrieved = false\<close> and \<open>ok = false\<close> for every bundle, answer and option
  object, and records no match from the retrieved chunks: the fallback is not run.
\<close>

theorem verifyQAAnswer_empty_retrieved:
  "let r = fst (verifyQAAnswer lastIndex b answer (Some []) opts)
   in cites_retrieved r = False \<and> ok r = False \<and> matched_from_retrieved r = None"
  by (simp add: verifyQAAnswer_def Let_def verification_result.defs qa_result.defs
      split: prod.splits)

text \<open>
  The answer of the example passes the base checks, and still fails against an empty
  list of retrieved identifiers.
\<close>

lemma grounded_answer_base_ok:
  "ok (fst (verifyResponseAgainstBundle 0 (Some example_bundle) grounded_answer DEFAULT_OPTIONS))"
  by code_simp

theorem verifyQAAnswer_empty_retrieved_witness:
  "ok (fst (verifyResponseAgainstBundle 0 (Some example_bundle) grounded_answer DEFAULT_OPTIONS))
   \<and> \<not> ok (fst (verifyQAAnswer 0 (Some example_bundle) grounded_answer (Some []) DEFAULT_OPTIONS))
   \<and> \<not> cites_retrieved
         (fst (verifyQAAnswer 0 (Some example_bundle) grounded_answer (Some []) DEFAULT_OPTIONS))"
  using verifyQAAnswer_empty_retrieved [of 0 "Some example_bundle" grounded_answer DEFAULT_OPTIONS]
    grounded_answer_base_ok
  by (simp add: Let_def)

section \<open>The segmenter (server/lib/mcp.js)\<close>

definition DEFAULT_CHUNK_TOKENS :: int where
  "DEFAULT_CHUNK_TOKENS = 500"

definition DEFAULT_CHUNK_OVERLAP :: int where
  "DEFAULT_CHUNK_OVERLAP = 50"

text \<open>\<open>estimateTokens\<close>: \<open>Math.max(1, Math.ceil(text.length / 4))\<close>, 0 for no text.\<close>

definition estimateTokens :: "string \<Rightarrow> nat" where
  "estimateTokens s = (if s = [] then 0 else max 1 ((length s + 3) div 4))"

text \<open>
  The look-ahead \<open>(?=[A-Z0-9"\<dots>\[]|$)\<close>. The two typographic quotation marks of the
  class are code units above 255. \<open>$\<close> is the end of the input (no \<open>m\<close> flag).
\<close>

definition sentence_start :: matcher where
  "sentence_start l r =
     (case r of
        [] \<Rightarrow> Some 0
      | c # _ \<Rightarrow> if is_upper c \<or> is_digit c \<or> c = CHR 0x22 \<or> c = CHR ''['' then Some 0 else None)"

text \<open>\<open>/(?<=\S[.!?])\s+(?=[A-Z0-9"\<dots>\[]|$)/g\<close>\<close>

definition sentence_pattern :: matcher where
  "sentence_pattern l r =
     (case l of
        p # s # _ \<Rightarrow>
          if (p = CHR ''.'' \<or> p = CHR ''!'' \<or> p = CHR ''?'') \<and> \<not> is_space s
          then m_plus is_space sentence_start l r else None
      | _ \<Rightarrow> None)"

definition splitIntoSentences :: "string \<Rightarrow> string list" where
  "splitIntoSentences s =
     (let normalized = trim (collapse_ws (replace_crlf s))
      in if normalized = [] then []
         else let raw = split_regex sentence_pattern normalized
              in if length raw \<noteq> 0 then filter (\<lambda>x. x \<noteq> []) (map trim raw) else [normalized])"

text \<open>\<open>/\n\s*\n/\<close>\<close>

definition paragraph_pattern :: matcher where
  "paragraph_pattern =
     m_chr (\<lambda>c. c = CHR 0x0A) (m_star is_space (m_chr (\<lambda>c. c = CHR 0x0A) m_end))"

text \<open>
  The options of \<open>chunkText\<close>; \<open>None\<close> is a missing option. The values are integers.
\<close>

record chunk_options =
  targetTokens :: "int option"
  overlapTokens :: "int option"

text \<open>A chunk as \<open>chunkText\<close> returns it: \<open>{ text, start_char, end_char }\<close>.\<close>

record draft =
  draft_text :: string
  start_char :: nat
  end_char :: nat

text \<open>
  The variables of the loops of \<open>chunkText\<close>: \<open>chunks\<close>, \<open>globalCharIndex\<close> and the
  running chunk of the paragraph. \<open>currentChunkStart\<close> is \<open>None\<close> for \<open>null\<close>.
\<close>

record seg_state =
  chunks_out :: "draft list"
  globalCharIndex :: nat
  currentChunkSentences :: "string list"
  currentChunkStart :: "nat option"
  currentChunkTokens :: nat

text \<open>
  The overlap loop of \<open>flushChunk\<close>, over the sentences of the chunk from the last one
  backwards: a sentence is kept unless it exceeds the budget and something is kept already.
\<close>

fun keep_overlap :: "int \<Rightarrow> string list \<Rightarrow> string list \<Rightarrow> nat \<Rightarrow> string list \<times> nat" where
  "keep_overlap overlap [] keep keepTokens = (keep, keepTokens)"
| "keep_overlap overlap (s # rest) keep keepTokens =
     (let t = estimateTokens s
      in if int (keepTokens + t) > overlap \<and> length keep > 0 then (keep, keepTokens)
         else keep_overlap overlap rest (s # keep) (keepTokens + t))"

definition flushChunk :: "int \<Rightarrow> bool \<Rightarrow> seg_state \<Rightarrow> seg_state" where
  "flushChunk overlap finalizeOverlap st =
     (if length (currentChunkSentences st) = 0 then st
      else
        let chunkText = trim (join_sp (currentChunkSentences st));
            startChar = (case currentChunkStart st of Some n \<Rightarrow> n | None \<Rightarrow> 0);
            endChar = startChar + length chunkText;
            st1 = st \<lparr> chunks_out := chunks_out st
                         @ [\<lparr> draft_text = chunkText, start_char = startChar, end_char = endChar \<rparr>] \<rparr>
        in if finalizeOverlap \<and> overlap > 0 then
             let (keep, keepTokens) = keep_overlap overlap (rev (currentChunkSentences st)) [] 0;
                 keepText = join_sp keep
             in st1 \<lparr> currentChunkSentences := keep,
                      currentChunkTokens := keepTokens,
                      currentChunkStart :=
                        Some (case indexOf chunkText keepText 0 of
                                Some keepIndexInChunk \<Rightarrow> startChar + keepIndexInChunk
                              | None \<Rightarrow> endChar) \<rparr>
           else st1 \<lparr> currentChunkSentences := [], currentChunkTokens := 0,
                      currentChunkStart := None \<rparr>)"

text \<open>
  One round of the loop over the sentences of a paragraph. The sentence is searched in
  the original text from \<open>globalCharIndex\<close>, then from 0, and placed at
  \<open>globalCharIndex\<close> when it is not found.
\<close>

definition add_sentence :: "string \<Rightarrow> int \<Rightarrow> int \<Rightarrow> seg_state \<Rightarrow> string \<Rightarrow> seg_state" where
  "add_sentence doc target overlap st sent =
     (let sentTokens = estimateTokens sent;
          absoluteSentenceIndex =
            (case indexOf doc sent (globalCharIndex st) of
               Some i \<Rightarrow> i
             | None \<Rightarrow>
                 (case indexOf doc sent 0 of Some i \<Rightarrow> i | None \<Rightarrow> globalCharIndex st));
          st1 = (if length (currentChunkSentences st) = 0
                 then st \<lparr> currentChunkStart := Some absoluteSentenceIndex \<rparr> else st);
          st2 = st1 \<lparr> currentChunkSentences := currentChunkSentences st1 @ [sent],
                      currentChunkTokens := currentChunkTokens st1 + sentTokens \<rparr>
      in if int (currentChunkTokens st2) \<ge> target then
           let st3 = flushChunk overlap True st2
           in st3 \<lparr> globalCharIndex := end_char (last (chunks_out st3)) \<rparr>
         else st2 \<lparr> globalCharIndex := absoluteSentenceIndex + length sent \<rparr>)"

text \<open>One round of the loop over the paragraphs.\<close>

definition process_paragraph :: "string \<Rightarrow> int \<Rightarrow> int \<Rightarrow> seg_state \<Rightarrow> string \<Rightarrow> seg_state" where
  "process_paragraph doc target overlap st para =
     (let sentences = splitIntoSentences para;
          st0 = st \<lparr> currentChunkSentences := [], currentChunkStart := None,
                     currentChunkTokens := 0 \<rparr>;
          st1 = foldl (add_sentence doc target overlap) st0 sentences
      in if length (currentChunkSentences st1) > 0 then
           let st2 = flushChunk overlap False st1
           in st2 \<lparr> globalCharIndex := end_char (last (chunks_out st2)) \<rparr>
         else st1)"

text \<open>
  One round of the final loop, which merges small chunks into the chunk before.
\<close>

definition merge_step :: "draft list \<Rightarrow> draft \<Rightarrow> draft list" where
  "merge_step merged c =
     (let t = estimateTokens (draft_text c)
      in if int t < max 50 (DEFAULT_CHUNK_TOKENS div 5) \<and> length merged > 0
         then butlast merged
              @ [(last merged) \<lparr> draft_text := draft_text (last merged) @ '' '' @ draft_text c,
                                 end_char := end_char c \<rparr>]
         else merged @ [c])"

definition chunkText :: "string \<Rightarrow> chunk_options \<Rightarrow> draft list" where
  "chunkText doc opts =
     (let target = (case targetTokens opts of
                      Some n \<Rightarrow> if n \<noteq> 0 then n else DEFAULT_CHUNK_TOKENS
                    | None \<Rightarrow> DEFAULT_CHUNK_TOKENS);
          overlap = (case overlapTokens opts of
                       Some n \<Rightarrow> if n \<noteq> 0 then n else DEFAULT_CHUNK_OVERLAP
                     | None \<Rightarrow> DEFAULT_CHUNK_OVERLAP)
      in if doc = [] \<or> trim doc = [] then []
         else
           let normalized = replace_crlf doc;
               paragraphs = filter (\<lambda>p. p \<noteq> [])
                              (map trim (split_regex paragraph_pattern normalized));
               st = foldl (process_paragraph doc target overlap)
                      \<lparr> chunks_out = [], globalCharIndex = 0, currentChunkSentences = [],
                        currentChunkStart = None, currentChunkTokens = 0 \<rparr>
                      paragraphs
           in foldl merge_step [] (chunks_out st))"

text \<open>
  The specification's words for the threshold of the final loop:
  \<open>max(50, target_tokens/5)\<close>.
\<close>

definition spec_merge_threshold :: "int \<Rightarrow> int" where
  "spec_merge_threshold target = max 50 (target div 5)"

section \<open>Cosine similarity in exact arithmetic\<close>

text \<open>
  The ranking properties of the retriever compare the scores as real numbers. For them
  \<open>cosineSimilarity\<close> of server/routes/ask.js is taken in exact arithmetic: the sums, the
  square roots and the quotient are those of the reals, and a division by zero is
  \<open>None\<close>. What the function returns in the double-precision arithmetic of JavaScript,
  with rounding, overflow and \<open>NaN\<close>, is \<open>cosineSimilarity_f64\<close> of the next section.
\<close>

definition js_div :: "real \<Rightarrow> real \<Rightarrow> real option" where
  "js_div x y = (if y = 0 then None else Some (x / y))"

text \<open>\<open>b[i] || 0\<close>: an index outside the array reads \<open>undefined\<close>, replaced by 0.\<close>

definition nth_or_zero :: "real list \<Rightarrow> nat \<Rightarrow> real" where
  "nth_or_zero b i = (if i < length b then b ! i else 0)"

text \<open>\<open>cosineSimilarity\<close> of server/routes/ask.js: the loop runs over the indices of \<open>a\<close>.\<close>

definition cosineSimilarity :: "real list \<Rightarrow> real list \<Rightarrow> real option" where
  "cosineSimilarity a b =
     (let (dot, na, nb) =
            foldl (\<lambda>(dot, na, nb) i.
                     let ai = nth_or_zero a i; bi = nth_or_zero b i
                     in (dot + ai * bi, na + ai * ai, nb + bi * bi))
              (0, 0, 0) [0..<length a]
      in if na = 0 \<or> nb = 0 then Some 0 else js_div dot (sqrt na * sqrt nb))"

text \<open>
  The specification's words in exact arithmetic: the dot product and the norm over the
  full vector.
\<close>

definition spec_dot :: "real list \<Rightarrow> real list \<Rightarrow> real" where
  "spec_dot a b = sum_list (map2 (*) a b)"

definition spec_norm :: "real list \<Rightarrow> real" where
  "spec_norm a = sqrt (sum_list (map (\<lambda>x. x * x) a))"

definition spec_cosine :: "real list \<Rightarrow> real list \<Rightarrow> real" where
  "spec_cosine a b =
     (if spec_norm a = 0 \<or> spec_norm b = 0 then 0
      else spec_dot a b / (spec_norm a * spec_norm b))"

section \<open>Cosine similarity in double precision\<close>

subsection \<open>JavaScript numbers\<close>

text \<open>
  A JavaScript number is an IEEE 754 double: a finite value, an infinity or \<open>NaN\<close>.
  \<open>Fin x\<close> is the finite double of value \<open>x\<close>. The two zeros are the one value
  \<open>Fin 0\<close>: they compare equal, \<open>-0 || 0\<close> is \<open>0\<close>, and only a division by zero tells
  them apart, which is \<open>None\<close> in \<open>f64_div\<close> below. The type does not ask that \<open>x\<close>
  is representable in 53 bits: every operation rounds its result, and what holds for all
  real entries of a vector holds for the doubles among them.
\<close>

datatype f64 = Fin real | PInf | NInf | NaN

text \<open>The nearest integer of \<open>q\<close>, the even one when \<open>q\<close> is half way between two.\<close>

definition rne :: "real \<Rightarrow> int" where
  "rne q =
     (let f = \<lfloor>q\<rfloor>; d = q - of_int f
      in if d < 1 / 2 then f else if d > 1 / 2 then f + 1 else if even f then f else f + 1)"

text \<open>
  The double nearest to a real, ties to even. A double has 53 significant bits: in the
  binade of exponent \<open>e\<close> the doubles are the multiples of \<open>2 ^ (e - 52)\<close>. The exponent
  is not below \<open>-1022\<close>, so that below \<open>2 ^ -1022\<close> the doubles are the multiples of
  \<open>2 ^ -1074\<close> (the subnormal numbers), and a value that rounds to \<open>2 ^ 1024\<close> or more
  is an infinity.
\<close>

definition round64 :: "real \<Rightarrow> f64" where
  "round64 x =
     (if x = 0 then Fin 0
      else
        let e = max (- 1022) \<lfloor>log 2 \<bar>x\<bar>\<rfloor>;
            ulp = 2 powr of_int (e - 52);
            y = of_int (rne (\<bar>x\<bar> / ulp)) * ulp
        in if y \<ge> 2 ^ 1024 then (if x > 0 then PInf else NInf) else Fin (sgn x * y))"

text \<open>
  \<open>x + y\<close>, \<open>x * y\<close>, \<open>Math.sqrt(x)\<close> and \<open>x / y\<close>: the exact result rounded, and the
  results of IEEE 754 for the infinities and \<open>NaN\<close>. A division by zero, which gives
  an infinity or \<open>NaN\<close> in JavaScript, is \<open>None\<close>.
\<close>

fun f64_add :: "f64 \<Rightarrow> f64 \<Rightarrow> f64" where
  "f64_add (Fin x) (Fin y) = round64 (x + y)"
| "f64_add (Fin x) PInf = PInf"
| "f64_add (Fin x) NInf = NInf"
| "f64_add PInf (Fin y) = PInf"
| "f64_add PInf PInf = PInf"
| "f64_add PInf NInf = NaN"
| "f64_add NInf (Fin y) = NInf"
| "f64_add NInf PInf = NaN"
| "f64_add NInf NInf = NInf"
| "f64_add NaN v = NaN"
| "f64_add u NaN = NaN"

fun f64_mul :: "f64 \<Rightarrow> f64 \<Rightarrow> f64" where
  "f64_mul (Fin x) (Fin y) = round64 (x * y)"
| "f64_mul (Fin x) PInf = (if x = 0 then NaN else if x > 0 then PInf else NInf)"
| "f64_mul (Fin x) NInf = (if x = 0 then NaN else if x > 0 then NInf else PInf)"
| "f64_mul PInf (Fin y) = (if y = 0 then NaN else if y > 0 then PInf else NInf)"
| "f64_mul NInf (Fin y) = (if y = 0 then NaN else if y > 0 then NInf else PInf)"
| "f64_mul PInf PInf = PInf"
| "f64_mul PInf NInf = NInf"
| "f64_mul NInf PInf = NInf"
| "f64_mul NInf NInf = PInf"
| "f64_mul NaN v = NaN"
| "f64_mul u NaN = NaN"

fun f64_sqrt :: "f64 \<Rightarrow> f64" where
  "f64_sqrt (Fin x) = (if x < 0 then NaN else round64 (sqrt x))"
| "f64_sqrt PInf = PInf"
| "f64_sqrt NInf = NaN"
| "f64_sqrt NaN = NaN"

fun f64_div :: "f64 \<Rightarrow> f64 \<Rightarrow> f64 option" where
  "f64_div u (Fin y) =
     (if y = 0 then None
      else Some (case u of
                   Fin x \<Rightarrow> round64 (x / y)
                 | PInf \<Rightarrow> if y > 0 then PInf else NInf
                 | NInf \<Rightarrow> if y > 0 then NInf else PInf
                 | NaN \<Rightarrow> NaN))"
| "f64_div (Fin x) PInf = Some (Fin 0)"
| "f64_div (Fin x) NInf = Some (Fin 0)"
| "f64_div u v = Some NaN"

subsection \<open>The two functions\<close>

text \<open>
  \<open>a[i] || 0\<close>: an index outside the array reads \<open>undefined\<close>, and \<open>undefined\<close>,
  \<open>NaN\<close> and \<open>0\<close> are replaced by 0.
\<close>

definition or_zero :: "f64 \<Rightarrow> f64" where
  "or_zero v = (if v = NaN then Fin 0 else v)"

definition nth_or_zero_f64 :: "f64 list \<Rightarrow> nat \<Rightarrow> f64" where
  "nth_or_zero_f64 b i = (if i < length b then or_zero (b ! i) else Fin 0)"

text \<open>\<open>cosineSimilarity\<close> of server/routes/ask.js: the loop runs over the indices of \<open>a\<close>.\<close>

definition cosineSimilarity_f64 :: "f64 list \<Rightarrow> f64 list \<Rightarrow> f64 option" where
  "cosineSimilarity_f64 a b =
     (let (dot, na, nb) =
            foldl (\<lambda>(dot, na, nb) i.
                     let ai = nth_or_zero_f64 a i; bi = nth_or_zero_f64 b i
                     in (f64_add dot (f64_mul ai bi), f64_add na (f64_mul ai ai),
                         f64_add nb (f64_mul bi bi)))
              (Fin 0, Fin 0, Fin 0) [0..<length a]
      in if na = Fin 0 \<or> nb = Fin 0 then Some (Fin 0)
         else f64_div dot (f64_mul (f64_sqrt na) (f64_sqrt nb)))"

text \<open>
  \<open>cosineSimilarity\<close> of server/lib/embeddings.js: vectors of different lengths are cut
  to the shorter length first, and the entries are read as they are.
\<close>

definition cosineSimilarity_lib_f64 :: "f64 list \<Rightarrow> f64 list \<Rightarrow> f64 option" where
  "cosineSimilarity_lib_f64 a0 b0 =
     (let m = min (length a0) (length b0);
          a = (if length a0 \<noteq> length b0 then slice a0 0 m else a0);
          b = (if length a0 \<noteq> length b0 then slice b0 0 m else b0);
          (dot, norma, normb) =
            foldl (\<lambda>(dot, norma, normb) i.
                     (f64_add dot (f64_mul (a ! i) (b ! i)),
                      f64_add norma (f64_mul (a ! i) (a ! i)),
                      f64_add normb (f64_mul (b ! i) (b ! i))))
              (Fin 0, Fin 0, Fin 0) [0..<length a]
      in if norma = Fin 0 \<or> normb = Fin 0 then Some (Fin 0)
         else f64_div dot (f64_mul (f64_sqrt norma) (f64_sqrt normb)))"

subsection \<open>The specification's words\<close>

text \<open>
  The dot product, the sum of squares under the norm, and the quotient
  \<open>dot(a, b) / (||a|| * ||b||)\<close> with the value 0 when a norm is zero, each operation in
  double precision and the sums taken from the first entry to the last.
\<close>

definition f64_dot :: "f64 list \<Rightarrow> f64 list \<Rightarrow> f64" where
  "f64_dot a b = foldl (\<lambda>s (x, y). f64_add s (f64_mul x y)) (Fin 0) (zip a b)"

definition f64_sumsq :: "f64 list \<Rightarrow> f64" where
  "f64_sumsq a = foldl (\<lambda>s x. f64_add s (f64_mul x x)) (Fin 0) a"

definition f64_cosine :: "f64 list \<Rightarrow> f64 list \<Rightarrow> f64 option" where
  "f64_cosine a b =
     (if f64_sumsq a = Fin 0 \<or> f64_sumsq b = Fin 0 then Some (Fin 0)
      else f64_div (f64_dot a b) (f64_mul (f64_sqrt (f64_sumsq a)) (f64_sqrt (f64_sumsq b))))"

text \<open>
  \<open>resize n b\<close> is \<open>b\<close> as the loop of server/routes/ask.js reads it up to the index
  \<open>n\<close>: cut to \<open>n\<close> entries or filled with zeros up to \<open>n\<close> entries, \<open>NaN\<close> read as 0.
\<close>

definition resize :: "nat \<Rightarrow> f64 list \<Rightarrow> f64 list" where
  "resize n b = map or_zero (take n b) @ replicate (n - length b) (Fin 0)"

text \<open>A finite number: neither an infinity nor \<open>NaN\<close>.\<close>

definition is_fin :: "f64 \<Rightarrow> bool" where
  "is_fin v = (case v of Fin x \<Rightarrow> True | _ \<Rightarrow> False)"

text \<open>Two doubles whose squares are outside the range of the doubles.\<close>

definition huge :: real where
  "huge = 2 ^ 600"

definition tiny :: real where
  "tiny = 1 / 2 ^ 600"

subsection \<open>Invariants of the sums\<close>

text \<open>
  A sum of squares is never negative and never between 0 and the least positive double;
  the root of a sum of squares that is not 0 is at least \<open>2 ^ -537\<close>; a positive number
  is an infinity or a finite number above 0.
\<close>

definition sumsq_like :: "f64 \<Rightarrow> bool" where
  "sumsq_like v \<longleftrightarrow> v = PInf \<or> v = NaN \<or> (\<exists>y. v = Fin y \<and> (y = 0 \<or> 2 powr (- 1074) \<le> y))"

definition root_like :: "f64 \<Rightarrow> bool" where
  "root_like v \<longleftrightarrow> v = PInf \<or> v = NaN \<or> (\<exists>y. v = Fin y \<and> 2 powr (- 537) \<le> y)"

definition pos_like :: "f64 \<Rightarrow> bool" where
  "pos_like v \<longleftrightarrow> v = PInf \<or> (\<exists>y. v = Fin y \<and> 0 < y)"

section \<open>The retriever (server/routes/ask.js)\<close>

datatype api_error = RequestFailed | TypeError | NonFiniteScore

text \<open>
  What lies outside the repository: the embeddings endpoint and the SHA-1 digest.
  \<open>embed_api n texts\<close> is the outcome of the request number \<open>n\<close> of the run for the
  input \<open>texts\<close>: an error (a response that is not ok, or one without a \<open>data\<close> array)
  or the list \<open>j.data.map(d => d.embedding)\<close>, whose entries may be undefined.
\<close>

record env =
  embed_api :: "nat \<Rightarrow> string list \<Rightarrow> api_error + real list option list"
  sha1_hex :: "string \<Rightarrow> string"

text \<open>The state outside the bundle: the requests issued so far and the bundles saved.\<close>

record world =
  embed_calls :: nat
  saved_bundles :: "doc_bundle list"

definition callOpenAIEmbeddings ::
  "env \<Rightarrow> world \<Rightarrow> string list \<Rightarrow> (api_error + real list option list) \<times> world" where
  "callOpenAIEmbeddings e w texts =
     (embed_api e (embed_calls w) texts, w \<lparr> embed_calls := Suc (embed_calls w) \<rparr>)"

definition saveBundle :: "world \<Rightarrow> doc_bundle \<Rightarrow> world" where
  "saveBundle w b = w \<lparr> saved_bundles := saved_bundles w @ [b] \<rparr>"

definition safeSnippet :: "string \<Rightarrow> nat \<Rightarrow> string" where
  "safeSnippet s maxLength =
     (if s = [] then [] else if length s \<le> maxLength then s
      else slice s 0 maxLength @ ''...'')"

text \<open>
  The inner loop of \<open>ensureBundleEmbeddings\<close>. The chunks without embedding are held by
  their positions in \<open>bundle.chunks\<close>: the source holds references to the chunk objects
  and writes through them. \<open>embs[j]\<close> is undefined beyond the end of the response.
\<close>

fun assign_batch ::
  "env \<Rightarrow> chunk list \<Rightarrow> nat list \<Rightarrow> real list option list \<Rightarrow> nat \<Rightarrow> chunk list" where
  "assign_batch e cs [] embs j = cs"
| "assign_batch e cs (i # batch) embs j =
     (let c = cs ! i;
          fp = ''emb-'' @ slice (sha1_hex e (chunk_text c)) 0 12;
          c' = c \<lparr> embedding := (if j < length embs then embs ! j else None),
                   embedding_id :=
                     Some (case embedding_id c of
                             Some x \<Rightarrow> if x \<noteq> [] then x else fp
                           | None \<Rightarrow> fp) \<rparr>
      in assign_batch e (cs [i := c']) batch embs (Suc j))"

definition BATCH :: nat where
  "BATCH = 16"

text \<open>
  The loop over the batches, from position \<open>i\<close> of \<open>chunksWithoutEmb\<close>. An error of the
  request leaves the loop at once; the chunks written so far stay written.
\<close>

function embed_batches ::
  "env \<Rightarrow> world \<Rightarrow> chunk list \<Rightarrow> nat list \<Rightarrow> nat \<Rightarrow> api_error option \<times> chunk list \<times> world" where
  "embed_batches e w cs chunksWithoutEmb i =
     (if i < length chunksWithoutEmb then
        let batch = slice chunksWithoutEmb i (i + BATCH);
            texts = map (\<lambda>k. chunk_text (cs ! k)) batch;
            (res, w') = callOpenAIEmbeddings e w texts
        in (case res of
              Inl err \<Rightarrow> (Some err, cs, w')
            | Inr embs \<Rightarrow>
                embed_batches e w' (assign_batch e cs batch embs 0) chunksWithoutEmb (i + BATCH))
      else (None, cs, w))"
  by pat_completeness auto
termination
  by (relation "measure (\<lambda>(e, w, cs, miss, i). length miss - i)") (auto simp: BATCH_def)

declare embed_batches.simps [simp del]

text \<open>
  \<open>ensureBundleEmbeddings\<close> returns the error thrown, if any, the bundle as it is after
  the call, and the state outside. \<open>bundle.chunks.filter\<close> throws a \<open>TypeError\<close> on a
  bundle without a chunks array.
\<close>

definition ensureBundleEmbeddings ::
  "env \<Rightarrow> world \<Rightarrow> doc_bundle \<Rightarrow> api_error option \<times> doc_bundle \<times> world" where
  "ensureBundleEmbeddings e w b =
     (case chunks b of
        None \<Rightarrow> (Some TypeError, b, w)
      | Some cs \<Rightarrow>
          let chunksWithoutEmb = filter (\<lambda>k. embedding (cs ! k) = None) [0..<length cs]
          in if length chunksWithoutEmb = 0 then (None, b, w)
             else
               (case embed_batches e w cs chunksWithoutEmb 0 of
                  (Some err, cs', w') \<Rightarrow> (Some err, b \<lparr> chunks := Some cs' \<rparr>, w')
                | (None, cs', w') \<Rightarrow>
                    (None, b \<lparr> chunks := Some cs' \<rparr>, saveBundle w' (b \<lparr> chunks := Some cs' \<rparr>))))"

record scored =
  sc_chunk :: chunk
  score :: real

record retrieved = scored +
  snippet :: string






text \<open>\<open>({ ...s, snippet: safeSnippet(s.chunk.text, 600) })\<close>\<close>

definition with_snippet :: "scored \<Rightarrow> retrieved" where
  "with_snippet s = scored.extend s (retrieved.fields (safeSnippet (chunk_text (sc_chunk s)) 600))"


text \<open>
  \<open>withRetry\<close> of server/lib/embeddings.js. \<open>fn n\<close> is the outcome of the call number
  \<open>n\<close> of \<open>fn\<close>; the function returns the final outcome, the number of calls made and
  the delays waited, in milliseconds.
\<close>

definition MAX_RETRIES :: nat where
  "MAX_RETRIES = 3"

definition RETRY_BACKOFF_MS :: nat where
  "RETRY_BACKOFF_MS = 500"

function withRetry_loop ::
  "(nat \<Rightarrow> 'e + 'a) \<Rightarrow> nat \<Rightarrow> nat \<Rightarrow> nat list \<Rightarrow> ('e + 'a) \<times> nat \<times> nat list" where
  "withRetry_loop fn retries attempt delays =
     (case fn attempt of
        Inr v \<Rightarrow> (Inr v, Suc attempt, delays)
      | Inl err \<Rightarrow>
          if Suc attempt > retries then (Inl err, Suc attempt, delays)
          else withRetry_loop fn retries (Suc attempt)
                 (delays @ [RETRY_BACKOFF_MS * 2 ^ (Suc attempt - 1)]))"
  by pat_completeness auto
termination
  by (relation "measure (\<lambda>(fn, retries, attempt, delays). retries - attempt)") auto

declare withRetry_loop.simps [simp del]

definition withRetry :: "(nat \<Rightarrow> 'e + 'a) \<Rightarrow> nat \<Rightarrow> ('e + 'a) \<times> nat \<times> nat list" where
  "withRetry fn retries = withRetry_loop fn retries 0 []"

section \<open>Properties of the segmenter\<close>

definition no_chunk_options :: chunk_options where
  "no_chunk_options = \<lparr> targetTokens = None, overlapTokens = None \<rparr>"

subsection \<open>Character offsets\<close>

text \<open>
  C2. The claim bounds every \<open>end_char\<close> by the length of the document. The document
  below has 38 characters and a line break inside its first sentence. The sentence, with
  its white space collapsed, is not found at position 0 but inside the second sentence, at
  position 23; the second sentence is then found by the search from 0. The one chunk
  starts at 23 and ends at \<open>23 + 38 = 61\<close>, beyond the end of the document.
\<close>

theorem chunk_end_beyond_document:
  "chunkText (''The fee'' @ [CHR 0x0A] @ ''is due. Again: The fee is due.'') no_chunk_options
   = [\<lparr> draft_text = ''The fee is due. Again: The fee is due.'', start_char = 23,
        end_char = 61 \<rparr>]
   \<and> length (''The fee'' @ [CHR 0x0A] @ ''is due. Again: The fee is due.'') = 38"
  by code_simp

subsection \<open>The threshold of the final merge\<close>

text \<open>
  C7. The claim computes the threshold from the caller's \<open>target_tokens\<close>. With
  \<open>targetTokens = 250\<close> the threshold of the claim is \<open>max(50, 250/5) = 50\<close>. The
  second paragraph of the document below is one sentence of 197 characters, estimated at
  50 tokens: by the claim it stands alone. The code compares with
  \<open>max(50, DEFAULT_CHUNK_TOKENS / 5) = 100\<close> and merges it into the first chunk.
\<close>

theorem merge_ignores_target_tokens:
  "chunkText (''Aaaa.'' @ [CHR 0x0A, CHR 0x0A] @ ''B'' @ replicate 195 (CHR ''b'') @ ''.'')
     \<lparr> targetTokens = Some 250, overlapTokens = None \<rparr>
   = [\<lparr> draft_text = ''Aaaa. B'' @ replicate 195 (CHR ''b'') @ ''.'', start_char = 0,
        end_char = 204 \<rparr>]
   \<and> estimateTokens (''B'' @ replicate 195 (CHR ''b'') @ ''.'') = 50
   \<and> spec_merge_threshold 250 = 50"
  by code_simp

section \<open>Properties of the cosine similarity\<close>

subsection \<open>Exact arithmetic\<close>





lemma cosineSimilarity_defined: "cosineSimilarity a b \<noteq> None"
  by (auto simp: cosineSimilarity_def js_div_def Let_def split: prod.splits)


subsection \<open>Rounding\<close>

lemma rne_ge_floor: "\<lfloor>q\<rfloor> \<le> rne q"
  by (simp add: rne_def Let_def)

lemma rne_ge:
  assumes "of_int m \<le> q"
  shows "m \<le> rne q"
proof -
  from assms have "m \<le> \<lfloor>q\<rfloor>" by (simp add: le_floor_iff)
  with rne_ge_floor [of q] show ?thesis by linarith
qed

lemma rne_of_int [simp]: "rne (of_int n) = n"
  by (simp add: rne_def)

lemma ulp_lower:
  fixes e :: int
  assumes "- 1022 \<le> e"
  shows "2 powr (- 1074) \<le> (2::real) powr of_int (e - 52)"
  using assms by simp

lemma round64_nonneg_cases:
  assumes "0 \<le> x"
  shows "round64 x = PInf \<or> (\<exists>y. round64 x = Fin y \<and> (y = 0 \<or> 2 powr (- 1074) \<le> y))"
proof (cases "x = 0")
  case True
  then show ?thesis by (simp add: round64_def)
next
  case False
  with assms have pos: "0 < x" by simp
  define e where "e = max (- 1022) \<lfloor>log 2 \<bar>x\<bar>\<rfloor>"
  define ulp :: real where "ulp = 2 powr of_int (e - 52)"
  define n where "n = rne (\<bar>x\<bar> / ulp)"
  have ulp: "2 powr (- 1074) \<le> ulp" "0 < ulp"
    unfolding ulp_def e_def by simp_all
  have "0 \<le> \<bar>x\<bar> / ulp" using ulp by simp
  then have n0: "0 \<le> n" unfolding n_def using rne_ge [of 0] by simp
  have r: "round64 x = (if of_int n * ulp \<ge> 2 ^ 1024 then PInf else Fin (of_int n * ulp))"
    using pos by (simp add: round64_def Let_def e_def ulp_def n_def)
  show ?thesis
  proof (cases "n = 0")
    case True
    with r show ?thesis by simp
  next
    case False
    with n0 have "1 \<le> n" by simp
    then have "(1::real) \<le> of_int n" by simp
    then have "ulp \<le> of_int n * ulp" using ulp(2) by (simp add: mult_le_cancel_right1)
    with ulp(1) have "2 powr (- 1074) \<le> of_int n * ulp" by simp
    with r show ?thesis by auto
  qed
qed

lemma round64_lower:
  fixes k :: int
  assumes k: "- 1074 \<le> k" and x: "2 powr of_int k \<le> x"
  shows "round64 x = PInf \<or> (\<exists>y. round64 x = Fin y \<and> 2 powr of_int k \<le> y)"
proof -
  have pos: "0 < x" using x by (smt (verit) powr_gt_zero)
  define L where "L = \<lfloor>log 2 \<bar>x\<bar>\<rfloor>"
  define e where "e = max (- 1022) L"
  define ulp :: real where "ulp = 2 powr of_int (e - 52)"
  define n where "n = rne (\<bar>x\<bar> / ulp)"
  have ulp0: "0 < ulp" unfolding ulp_def by simp
  have r: "round64 x = (if of_int n * ulp \<ge> 2 ^ 1024 then PInf else Fin (of_int n * ulp))"
    using pos by (simp add: round64_def Let_def e_def L_def ulp_def n_def)
  have "2 powr of_int k \<le> of_int n * ulp"
  proof (cases "e - 52 \<le> k")
    case True
    define m where "m = (2::int) ^ nat (k - (e - 52))"
    have "(2::real) powr of_int (k - (e - 52)) = 2 ^ nat (k - (e - 52))"
      using True by (subst powr_real_of_int) auto
    then have m: "of_int m = (2::real) powr of_int (k - (e - 52))"
      by (simp add: m_def)
    have "of_int m * ulp = 2 powr of_int k"
      unfolding m ulp_def by (simp flip: powr_add)
    then have "of_int m \<le> \<bar>x\<bar> / ulp"
      using x pos ulp0 by (simp add: pos_le_divide_eq)
    then have "m \<le> n" unfolding n_def by (rule rne_ge)
    then have "of_int m * ulp \<le> of_int n * ulp" using ulp0 by simp
    with \<open>of_int m * ulp = 2 powr of_int k\<close> show ?thesis by simp
  next
    case False
    with k have eL: "e = L" "- 1022 < L" unfolding e_def by auto
    have "of_int L \<le> log 2 x" unfolding L_def using pos by simp
    then have "2 powr of_int L \<le> 2 powr log 2 x" by simp
    then have Lx: "2 powr of_int L \<le> x" using pos by simp
    have "(2::real) powr 52 * 2 powr of_int (L - 52) = 2 powr (52 + of_int (L - 52))"
      by (rule powr_add [symmetric])
    then have "(2::real) powr 52 * ulp = 2 powr of_int L"
      unfolding ulp_def eL(1) by simp
    then have "2 powr 52 \<le> \<bar>x\<bar> / ulp"
      using Lx pos ulp0 by (simp add: pos_le_divide_eq)
    then have "of_int (2 ^ 52) \<le> \<bar>x\<bar> / ulp" by simp
    then have "(2::int) ^ 52 \<le> n" unfolding n_def by (rule rne_ge)
    then have "1 \<le> n" by simp
    then have "(1::real) \<le> of_int n" by simp
    then have "ulp \<le> of_int n * ulp" using ulp0 by (simp add: mult_le_cancel_right1)
    moreover have "2 powr of_int k \<le> ulp" unfolding ulp_def using False by simp
    ultimately show ?thesis by simp
  qed
  with r show ?thesis by auto
qed

subsection \<open>Sums of squares and their roots\<close>

lemma sumsq_like_round64: "0 \<le> x \<Longrightarrow> sumsq_like (round64 x)"
  using round64_nonneg_cases [of x] by (auto simp: sumsq_like_def)

lemma sumsq_like_square: "sumsq_like (f64_mul v v)"
  by (cases v) (simp_all add: sumsq_like_round64, simp_all add: sumsq_like_def)

lemma sumsq_like_zero: "sumsq_like (Fin 0)"
  by (simp add: sumsq_like_def)

lemma sumsq_like_add:
  assumes "sumsq_like u" "sumsq_like v"
  shows "sumsq_like (f64_add u v)"
proof -
  have nn: "\<And>y::real. y = 0 \<or> 2 powr (- 1074) \<le> y \<Longrightarrow> 0 \<le> y"
    by (smt (verit) powr_gt_zero)
  from assms show ?thesis
    by (cases u; cases v) (auto simp: sumsq_like_def intro!: sumsq_like_round64 [unfolded sumsq_like_def] dest!: nn)
qed

lemma sumsq_like_foldl:
  "sumsq_like x0 \<Longrightarrow> sumsq_like (foldl (\<lambda>s i. f64_add s (f64_mul (f i) (f i))) x0 js)"
  by (induction js arbitrary: x0) (simp_all add: sumsq_like_add sumsq_like_square del: f64_mul.simps)

lemma sqrt_min_subnormal: "sqrt (2 powr (- 1074)) = 2 powr (- 537)"
proof -
  have "sqrt (2 powr (- 1074)) = (2 powr (- 1074)) powr (1 / 2)"
    by (simp add: powr_half_sqrt)
  also have "\<dots> = 2 powr (- 1074 * (1 / 2))" by (rule powr_powr)
  finally show ?thesis by simp
qed

lemma root_like_sqrt:
  assumes "sumsq_like v" "v \<noteq> Fin 0"
  shows "root_like (f64_sqrt v)"
proof (cases v)
  case (Fin y)
  with assms have y: "2 powr (- 1074) \<le> y" by (auto simp: sumsq_like_def)
  then have "0 < y" by (smt (verit) powr_gt_zero)
  from y have "sqrt (2 powr (- 1074)) \<le> sqrt y" by simp
  then have "2 powr of_int (- 537) \<le> sqrt y" by (simp add: sqrt_min_subnormal)
  from round64_lower [OF _ this] have "round64 (sqrt y) = PInf \<or> (\<exists>z. round64 (sqrt y) = Fin z \<and> 2 powr (- 537) \<le> z)"
    by simp
  with Fin \<open>0 < y\<close> show ?thesis by (auto simp: root_like_def)
next
  case PInf
  then show ?thesis by (simp add: root_like_def)
next
  case NInf
  then show ?thesis by (simp add: root_like_def)
next
  case NaN
  then show ?thesis by (simp add: root_like_def)
qed

lemma mul_roots_nonzero:
  assumes "root_like s" "root_like t"
  shows "f64_mul s t \<noteq> Fin 0"
proof -
  have pos: "\<And>y::real. 2 powr (- 537) \<le> y \<Longrightarrow> 0 < y"
    by (smt (verit) powr_gt_zero)
  have fin: "round64 (x * y) \<noteq> Fin 0" if "2 powr (- 537) \<le> x" "2 powr (- 537) \<le> y" for x y :: real
  proof -
    have "(2::real) powr (- 537) * 2 powr (- 537) = 2 powr (- 537 + - 537)"
      by (rule powr_add [symmetric])
    then have e: "(2::real) powr (- 537) * 2 powr (- 537) = 2 powr (- 1074)" by simp
    have "2 powr (- 537) * 2 powr (- 537) \<le> x * y"
      using that pos [of x] by (intro mult_mono) simp_all
    with e have "2 powr of_int (- 1074) \<le> x * y" by simp
    from round64_lower [OF _ this]
    have "round64 (x * y) = PInf \<or> (\<exists>z. round64 (x * y) = Fin z \<and> 2 powr (- 1074) \<le> z)"
      by simp
    then show ?thesis by (smt (verit) f64.distinct(1) f64.inject powr_gt_zero)
  qed
  from assms show ?thesis
    by (cases s; cases t) (auto simp: root_like_def fin dest: pos)
qed

lemma f64_div_None: "f64_div u v = None \<longleftrightarrow> v = Fin 0"
  by (cases u; cases v) auto

subsection \<open>The loops\<close>

lemma zero_foldl:
  "\<forall>i\<in>set js. f i = Fin 0 \<Longrightarrow>
     foldl (\<lambda>s i. f64_add s (f64_mul (f i) (f i))) (Fin 0) js = Fin 0"
  by (induction js) (simp_all add: round64_def)

lemma foldl_triple:
  "foldl (\<lambda>(d, x, y) i. (D d i, X x i, Y y i)) (d0, x0, y0) js
   = (foldl D d0 js, foldl X x0 js, foldl Y y0 js)"
  by (induction js arbitrary: d0 x0 y0) simp_all

lemma foldl_nth:
  "foldl (\<lambda>s i. F s (a ! i)) s0 [0..<length a] = foldl F s0 a"
proof -
  have "foldl F s0 (map ((!) a) [0..<length a]) = foldl (\<lambda>s i. F s (a ! i)) s0 [0..<length a]"
    by (rule foldl_map)
  then show ?thesis by (simp add: map_nth)
qed

lemma foldl_nth_zip:
  assumes "length a = length b"
  shows "foldl (\<lambda>s i. F s (a ! i) (b ! i)) s0 [0..<length a] = foldl (\<lambda>s (x, y). F s x y) s0 (zip a b)"
proof -
  have z: "zip a b = map (\<lambda>i. (a ! i, b ! i)) [0..<length a]"
    using assms by (intro nth_equalityI) simp_all
  have "foldl (\<lambda>s (x, y). F s x y) s0 (map (\<lambda>i. (a ! i, b ! i)) [0..<length a])
        = foldl (\<lambda>s i. (\<lambda>s (x, y). F s x y) s (a ! i, b ! i)) s0 [0..<length a]"
    by (rule foldl_map)
  then show ?thesis unfolding z [symmetric] by simp
qed

lemma lib_loop:
  "foldl (\<lambda>(dot, norma, normb) i.
            (f64_add dot (f64_mul (a ! i) (b ! i)),
             f64_add norma (f64_mul (a ! i) (a ! i)),
             f64_add normb (f64_mul (b ! i) (b ! i))))
     (Fin 0, Fin 0, Fin 0) js
   = (foldl (\<lambda>s i. f64_add s (f64_mul (a ! i) (b ! i))) (Fin 0) js,
      foldl (\<lambda>s i. f64_add s (f64_mul (a ! i) (a ! i))) (Fin 0) js,
      foldl (\<lambda>s i. f64_add s (f64_mul (b ! i) (b ! i))) (Fin 0) js)"
  by (rule foldl_triple)

lemma loop_sums:
  assumes "length a = length b"
  shows "foldl (\<lambda>(dot, norma, normb) i.
            (f64_add dot (f64_mul (a ! i) (b ! i)),
             f64_add norma (f64_mul (a ! i) (a ! i)),
             f64_add normb (f64_mul (b ! i) (b ! i))))
     (Fin 0, Fin 0, Fin 0) [0..<length a]
   = (f64_dot a b, f64_sumsq a, f64_sumsq b)"
proof -
  have d: "foldl (\<lambda>s i. f64_add s (f64_mul (a ! i) (b ! i))) (Fin 0) [0..<length a]
           = f64_dot a b"
    unfolding f64_dot_def
    using foldl_nth_zip [OF assms, where F = "\<lambda>s x y. f64_add s (f64_mul x y)" and ?s0.0 = "Fin 0"] .
  have x: "foldl (\<lambda>s i. f64_add s (f64_mul (a ! i) (a ! i))) (Fin 0) [0..<length a]
           = f64_sumsq a"
    unfolding f64_sumsq_def
    using foldl_nth [where F = "\<lambda>s x. f64_add s (f64_mul x x)" and ?s0.0 = "Fin 0" and a = a] .
  have y: "foldl (\<lambda>s i. f64_add s (f64_mul (b ! i) (b ! i))) (Fin 0) [0..<length a]
           = f64_sumsq b"
    unfolding f64_sumsq_def assms
    using foldl_nth [where F = "\<lambda>s x. f64_add s (f64_mul x x)" and ?s0.0 = "Fin 0" and a = b] .
  show ?thesis unfolding lib_loop d x y ..
qed

lemma length_resize [simp]: "length (resize n b) = n"
  by (simp add: resize_def)

lemma resize_nth: "i < n \<Longrightarrow> resize n b ! i = nth_or_zero_f64 b i"
  by (simp add: resize_def nth_or_zero_f64_def nth_append)

lemma resize_same_length: "resize (length b) b = map or_zero b"
  by (simp add: resize_def)

lemma cosineSimilarity_f64_cosine:
  "cosineSimilarity_f64 a b = f64_cosine (resize (length a) a) (resize (length a) b)"
proof -
  let ?a = "resize (length a) a" and ?b = "resize (length a) b"
  have len: "length ?a = length ?b" by simp
  have "foldl (\<lambda>(dot, na, nb) i.
            let ai = nth_or_zero_f64 a i; bi = nth_or_zero_f64 b i
            in (f64_add dot (f64_mul ai bi), f64_add na (f64_mul ai ai),
                f64_add nb (f64_mul bi bi)))
     (Fin 0, Fin 0, Fin 0) [0..<length a]
     = foldl (\<lambda>(dot, norma, normb) i.
            (f64_add dot (f64_mul (?a ! i) (?b ! i)),
             f64_add norma (f64_mul (?a ! i) (?a ! i)),
             f64_add normb (f64_mul (?b ! i) (?b ! i))))
     (Fin 0, Fin 0, Fin 0) [0..<length ?a]"
    by (rule foldl_cong) (simp_all add: resize_nth Let_def split: prod.splits)
  also have "\<dots> = (f64_dot ?a ?b, f64_sumsq ?a, f64_sumsq ?b)"
    by (rule loop_sums [OF len])
  finally show ?thesis
    by (simp add: cosineSimilarity_f64_def f64_cosine_def)
qed

lemma cosineSimilarity_lib_f64_cosine:
  "cosineSimilarity_lib_f64 a b
   = f64_cosine (take (min (length a) (length b)) a) (take (min (length a) (length b)) b)"
proof -
  define m where "m = min (length a) (length b)"
  have a: "(if length a \<noteq> length b then slice a 0 m else a) = take m a"
    and b: "(if length a \<noteq> length b then slice b 0 m else b) = take m b"
    by (simp_all add: slice_def m_def)
  have len: "length (take m a) = length (take m b)" by (simp add: m_def)
  show ?thesis
    unfolding cosineSimilarity_lib_f64_def Let_def m_def [symmetric] a b loop_sums [OF len]
    by (simp add: f64_cosine_def)
qed

subsection \<open>The quotient\<close>

lemma round64_not_NaN [simp]: "round64 x \<noteq> NaN"
  by (simp add: round64_def Let_def)

lemma sumsq_like_sumsq: "sumsq_like (f64_sumsq u)"
  unfolding f64_sumsq_def by (rule sumsq_like_foldl [OF sumsq_like_zero])

lemma f64_cosine_defined: "f64_cosine u v \<noteq> None"
proof -
  have "f64_div d (f64_mul (f64_sqrt (f64_sumsq u)) (f64_sqrt (f64_sumsq v))) \<noteq> None"
    if "f64_sumsq u \<noteq> Fin 0" "f64_sumsq v \<noteq> Fin 0" for d
    using mul_roots_nonzero [OF root_like_sqrt [OF sumsq_like_sumsq that(1)]
        root_like_sqrt [OF sumsq_like_sumsq that(2)]]
    by (simp add: f64_div_None)
  then show ?thesis by (simp add: f64_cosine_def del: f64_mul.simps)
qed

lemma f64_sumsq_zero: "\<forall>x\<in>set u. x = Fin 0 \<Longrightarrow> f64_sumsq u = Fin 0"
  unfolding f64_sumsq_def by (rule zero_foldl)

lemma f64_cosine_zero:
  "(\<forall>x\<in>set u. x = Fin 0) \<or> (\<forall>x\<in>set v. x = Fin 0) \<Longrightarrow> f64_cosine u v = Some (Fin 0)"
  by (auto simp: f64_cosine_def f64_sumsq_zero)

lemma resize_zero: "\<forall>x\<in>set b. x = Fin 0 \<Longrightarrow> \<forall>x\<in>set (resize n b). x = Fin 0"
  by (auto simp: resize_def or_zero_def dest: in_set_takeD)

lemma take_zero: "\<forall>x\<in>set b. x = Fin 0 \<Longrightarrow> \<forall>x\<in>set (take n b). x = Fin 0"
  by (auto dest: in_set_takeD)

lemma root_like_pos:
  assumes "f64_sumsq u = Fin x" "x \<noteq> 0"
  shows "pos_like (f64_sqrt (f64_sumsq u)) \<and> f64_sqrt (f64_sumsq u) \<noteq> Fin 0"
proof -
  have "sumsq_like (Fin x)" using sumsq_like_sumsq [of u] assms by simp
  with assms have x: "2 powr (- 1074) \<le> x" by (simp add: sumsq_like_def)
  then have pos: "0 < x" by (smt (verit) powr_gt_zero)
  from x have "sqrt (2 powr (- 1074)) \<le> sqrt x" by simp
  then have "2 powr of_int (- 537) \<le> sqrt x" by (simp add: sqrt_min_subnormal)
  from round64_lower [OF _ this]
  have "round64 (sqrt x) = PInf \<or> (\<exists>z. round64 (sqrt x) = Fin z \<and> 2 powr (- 537) \<le> z)"
    by simp
  then have "pos_like (round64 (sqrt x)) \<and> round64 (sqrt x) \<noteq> Fin 0"
    by (auto simp: pos_like_def) (smt (verit) powr_gt_zero)+
  with assms pos show ?thesis by simp
qed

lemma f64_div_not_NaN:
  assumes "pos_like s" "pos_like t"
  shows "f64_div (Fin d) (f64_mul s t) \<noteq> Some NaN"
proof -
  from assms consider
    (ff) y z where "s = Fin y" "t = Fin z" "0 < y" "0 < z"
    | (inf) "f64_mul s t = PInf"
    by (cases s; cases t) (auto simp: pos_like_def)
  then show ?thesis
  proof cases
    case ff
    show ?thesis
    proof (cases "round64 (y * z)")
      case (Fin q)
      with ff show ?thesis by simp
    next
      case PInf
      with ff show ?thesis by simp
    next
      case NInf
      with ff show ?thesis by simp
    next
      case NaN
      then show ?thesis by simp
    qed
  next
    case inf
    then show ?thesis by simp
  qed
qed

lemma f64_cosine_not_NaN:
  assumes "is_fin (f64_dot u v)" "is_fin (f64_sumsq u)" "is_fin (f64_sumsq v)"
  shows "f64_cosine u v \<noteq> Some NaN"
proof -
  from assms obtain d x y where
    d: "f64_dot u v = Fin d" and x: "f64_sumsq u = Fin x" and y: "f64_sumsq v = Fin y"
    by (auto simp: is_fin_def split: f64.splits)
  show ?thesis
  proof (cases "x = 0 \<or> y = 0")
    case True
    with x y show ?thesis by (auto simp: f64_cosine_def)
  next
    case False
    with root_like_pos [OF x] root_like_pos [OF y]
    have "pos_like (f64_sqrt (f64_sumsq u))" "pos_like (f64_sqrt (f64_sumsq v))" by simp_all
    from f64_div_not_NaN [OF this, of d] False x y d show ?thesis
      by (simp add: f64_cosine_def del: f64_mul.simps f64_sqrt.simps)
  qed
qed

subsection \<open>Overflow and underflow\<close>

lemma round64_zero [simp]: "round64 0 = Fin 0"
  by (simp add: round64_def)

lemma round64_powr:
  fixes k :: int
  assumes "- 1022 \<le> k"
  shows "round64 (2 powr of_int k) = (if 1024 \<le> k then PInf else Fin (2 powr of_int k))"
proof -
  let ?x = "(2::real) powr of_int k"
  have pos: "0 < ?x" by simp
  have L: "\<lfloor>log 2 \<bar>?x\<bar>\<rfloor> = k" by simp
  have e: "max (- 1022) \<lfloor>log 2 \<bar>?x\<bar>\<rfloor> = k" unfolding L using assms by simp
  have "(2::real) powr 52 * 2 powr of_int (k - 52) = 2 powr (52 + of_int (k - 52))"
    by (rule powr_add [symmetric])
  then have m: "(2::real) powr 52 * 2 powr of_int (k - 52) = ?x" by simp
  then have "\<bar>?x\<bar> / 2 powr of_int (k - 52) = of_int (2 ^ 52)"
    by (simp add: field_simps)
  then have n: "rne (\<bar>?x\<bar> / 2 powr of_int (k - 52)) = 2 ^ 52"
    by (simp only: rne_of_int)
  have y: "of_int (2 ^ 52) * 2 powr of_int (k - 52) = ?x" using m by simp
  have ov: "(2 ^ 1024 \<le> ?x) = (1024 \<le> k)"
  proof -
    have "(2::real) ^ 1024 = 2 powr of_int 1024" by simp
    then have "(2 ^ 1024 \<le> ?x) = (2 powr of_int 1024 \<le> ?x)" by simp
    also have "\<dots> = (1024 \<le> k)" by (simp only: powr_le_cancel_iff) simp
    finally show ?thesis .
  qed
  have "round64 ?x = (if 2 ^ 1024 \<le> ?x then PInf else Fin ?x)"
    unfolding round64_def Let_def e n y using pos by simp
  then show ?thesis unfolding ov .
qed

lemma round64_one [simp]: "round64 1 = Fin 1"
  using round64_powr [of 0] by simp

lemma pow_as_powr: "(2::real) ^ n = 2 powr of_int (int n)"
  by (simp add: powr_realpow)

lemma inverse_pow_as_powr: "1 / (2::real) ^ n = 2 powr (- real n)"
  by (simp add: powr_minus powr_realpow divide_inverse)

lemma round64_overflow: "round64 (huge * huge) = PInf"
proof -
  have "huge * huge = 2 ^ (600 + 600)"
    unfolding huge_def by (rule power_add [symmetric])
  also have "\<dots> = 2 powr of_int (int (600 + 600))" by (rule pow_as_powr)
  finally have e: "huge * huge = 2 powr of_int (int (600 + 600))" .
  have "round64 (2 powr of_int (int (600 + 600))) = PInf"
    by (subst round64_powr) simp_all
  with e show ?thesis by (simp only:)
qed

lemma round64_tiny:
  assumes "0 < x" "x < 2 powr (- 1075)"
  shows "round64 x = Fin 0"
proof -
  have "log 2 x < log 2 (2 powr (- 1075))"
    using assms by (subst log_less_cancel_iff) simp_all
  then have "log 2 x < - 1075" by simp
  then have "\<lfloor>log 2 \<bar>x\<bar>\<rfloor> < - 1022" using assms(1) by (simp add: floor_less_iff)
  then have e: "max (- 1022) \<lfloor>log 2 \<bar>x\<bar>\<rfloor> = - 1022" by simp
  have "(2::real) powr (- 1074) * (1 / 2) = 2 powr (- 1074) * 2 powr (- 1)" by simp
  also have "\<dots> = 2 powr (- 1074 + - 1)" by (rule powr_add [symmetric])
  finally have h: "(2::real) powr (- 1074) * (1 / 2) = 2 powr (- 1075)" by simp
  have q: "0 \<le> x / 2 powr (- 1074)" "x / 2 powr (- 1074) < 1 / 2"
    using assms h by (simp_all add: pos_divide_less_eq mult.commute)
  then have "x / 2 powr (- 1074) < 1" by linarith
  with q have "\<lfloor>x / 2 powr (- 1074)\<rfloor> = 0" by (simp add: floor_eq_iff)
  with q have "rne (x / 2 powr (- 1074)) = 0" by (simp add: rne_def)
  then show ?thesis
    unfolding round64_def Let_def e using assms(1) by simp
qed

lemma round64_underflow: "round64 (tiny * tiny) = Fin 0"
proof -
  have "tiny * tiny = 1 / (2 ^ 600 * 2 ^ 600)"
    unfolding tiny_def by (simp only: times_divide_times_eq mult_1)
  also have "\<dots> = 1 / 2 ^ (600 + 600)" by (simp only: power_add)
  also have "\<dots> = 2 powr (- real (600 + 600))" by (rule inverse_pow_as_powr)
  finally have e: "tiny * tiny = 2 powr (- real (600 + 600))" .
  have "(2::real) powr (- real (600 + 600)) < 2 powr (- 1075)"
    by (subst powr_less_cancel_iff) simp_all
  then have "round64 (2 powr (- real (600 + 600))) = Fin 0"
    by (intro round64_tiny) simp_all
  with e show ?thesis by (simp only:)
qed

lemma tiny_pos: "0 < tiny"
  by (simp add: tiny_def)

lemma f64_cosine_unit: "f64_cosine [Fin 1, Fin 0] [Fin 1, Fin 0] = Some (Fin 1)"
  by (simp add: f64_cosine_def f64_sumsq_def f64_dot_def)

lemma f64_sums_unit:
  "f64_dot [Fin 1, Fin 0] [Fin 1, Fin 0] = Fin 1" "f64_sumsq [Fin 1, Fin 0] = Fin 1"
  by (simp_all add: f64_sumsq_def f64_dot_def)

subsection \<open>What the two functions return\<close>

text \<open>
  C6, as amended. Both functions return \<open>dot(a, b) / (||a|| * ||b||)\<close> computed in double
  precision, of \<open>a\<close> and \<open>b\<close> as their loops read them: server/routes/ask.js reads
  \<open>b\<close> cut or filled with zeros to the length of \<open>a\<close> and every \<open>NaN\<close> entry as 0,
  server/lib/embeddings.js cuts both vectors to the shorter length. For two vectors of the
  same length these are the full vectors. The functions never divide by zero, they return
  0 when one of the two sums of squares is 0, in particular when one of the vectors has
  only zeros, and they return \<open>NaN\<close> only when one of the three sums is not a finite
  number.
\<close>

theorem cosineSimilarity_f64_properties:
  "let a1 = resize (length a) a; b1 = resize (length a) b;
       m = min (length a) (length b); a2 = take m a; b2 = take m b
   in cosineSimilarity_f64 a b = f64_cosine a1 b1
      \<and> cosineSimilarity_lib_f64 a b = f64_cosine a2 b2
      \<and> (length a = length b \<longrightarrow>
           a1 = map or_zero a \<and> b1 = map or_zero b \<and> a2 = a \<and> b2 = b)
      \<and> cosineSimilarity_f64 a b \<noteq> None \<and> cosineSimilarity_lib_f64 a b \<noteq> None
      \<and> (f64_sumsq a1 = Fin 0 \<or> f64_sumsq b1 = Fin 0 \<longrightarrow>
           cosineSimilarity_f64 a b = Some (Fin 0))
      \<and> (f64_sumsq a2 = Fin 0 \<or> f64_sumsq b2 = Fin 0 \<longrightarrow>
           cosineSimilarity_lib_f64 a b = Some (Fin 0))
      \<and> ((\<forall>x\<in>set a. x = Fin 0) \<or> (\<forall>x\<in>set b. x = Fin 0) \<longrightarrow>
           cosineSimilarity_f64 a b = Some (Fin 0)
           \<and> cosineSimilarity_lib_f64 a b = Some (Fin 0))
      \<and> (is_fin (f64_dot a1 b1) \<and> is_fin (f64_sumsq a1) \<and> is_fin (f64_sumsq b1) \<longrightarrow>
           cosineSimilarity_f64 a b \<noteq> Some NaN)
      \<and> (is_fin (f64_dot a2 b2) \<and> is_fin (f64_sumsq a2) \<and> is_fin (f64_sumsq b2) \<longrightarrow>
           cosineSimilarity_lib_f64 a b \<noteq> Some NaN)"
proof -
  define a1 where "a1 = resize (length a) a"
  define b1 where "b1 = resize (length a) b"
  define m where "m = min (length a) (length b)"
  define a2 where "a2 = take m a"
  define b2 where "b2 = take m b"
  have ask: "cosineSimilarity_f64 a b = f64_cosine a1 b1"
    unfolding a1_def b1_def by (rule cosineSimilarity_f64_cosine)
  have lib: "cosineSimilarity_lib_f64 a b = f64_cosine a2 b2"
    unfolding a2_def b2_def m_def by (rule cosineSimilarity_lib_f64_cosine)
  have same: "a1 = map or_zero a \<and> b1 = map or_zero b \<and> a2 = a \<and> b2 = b"
    if "length a = length b"
    using that resize_same_length [of a] resize_same_length [of b]
    by (simp add: a1_def b1_def a2_def b2_def m_def)
  have zero_sum: "f64_cosine u v = Some (Fin 0)"
    if "f64_sumsq u = Fin 0 \<or> f64_sumsq v = Fin 0" for u v
    using that by (auto simp: f64_cosine_def)
  have zero: "f64_cosine a1 b1 = Some (Fin 0) \<and> f64_cosine a2 b2 = Some (Fin 0)"
    if "(\<forall>x\<in>set a. x = Fin 0) \<or> (\<forall>x\<in>set b. x = Fin 0)"
    using that unfolding a1_def b1_def a2_def b2_def
    by (auto intro!: f64_cosine_zero dest: resize_zero take_zero)
  show ?thesis
    unfolding Let_def a1_def [symmetric] b1_def [symmetric] m_def [symmetric]
      a2_def [symmetric] b2_def [symmetric] ask lib
    using same zero zero_sum f64_cosine_defined f64_cosine_not_NaN by blast
qed

theorem cosineSimilarity_f64_properties_witness:
  "cosineSimilarity_f64 [Fin 1, Fin 0] [Fin 1, Fin 0] = Some (Fin 1)
   \<and> cosineSimilarity_lib_f64 [Fin 1, Fin 0] [Fin 1, Fin 0] = Some (Fin 1)
   \<and> cosineSimilarity_f64 [Fin 1, Fin 0] [Fin 1, Fin 0] \<noteq> Some NaN
   \<and> cosineSimilarity_f64 [Fin 0, Fin 0] [Fin 1, Fin 0] = Some (Fin 0)
   \<and> cosineSimilarity_lib_f64 [Fin 0, Fin 0] [Fin 1, Fin 0] = Some (Fin 0)"
proof -
  have fin: "is_fin (f64_dot [Fin 1, Fin 0] [Fin 1, Fin 0])" "is_fin (f64_sumsq [Fin 1, Fin 0])"
    by (simp_all add: f64_sums_unit is_fin_def)
  have zero: "\<forall>x\<in>set [Fin 0, Fin 0]. x = Fin 0"
    by simp
  from cosineSimilarity_f64_properties [of "[Fin 1, Fin 0]" "[Fin 1, Fin 0]"] fin
  have "cosineSimilarity_f64 [Fin 1, Fin 0] [Fin 1, Fin 0] = Some (Fin 1)
        \<and> cosineSimilarity_lib_f64 [Fin 1, Fin 0] [Fin 1, Fin 0] = Some (Fin 1)
        \<and> cosineSimilarity_f64 [Fin 1, Fin 0] [Fin 1, Fin 0] \<noteq> Some NaN"
    by (simp add: Let_def resize_def or_zero_def f64_cosine_unit)
  moreover
  from cosineSimilarity_f64_properties [of "[Fin 0, Fin 0]" "[Fin 1, Fin 0]"] zero
  have "cosineSimilarity_f64 [Fin 0, Fin 0] [Fin 1, Fin 0] = Some (Fin 0)
        \<and> cosineSimilarity_lib_f64 [Fin 0, Fin 0] [Fin 1, Fin 0] = Some (Fin 0)"
    unfolding Let_def by blast
  ultimately show ?thesis by blast
qed

text \<open>
  C6, as stated, fails in three ways. Against \<open>[1, 1]\<close> the vector \<open>[1]\<close> scores 1 in both
  functions, because only the first entry of \<open>[1, 1]\<close> enters its norm; with the norm
  over the full vector the value is \<open>1 / sqrt 2\<close>. The vector \<open>[2 ^ 600]\<close> against
  itself scores \<open>NaN\<close>: the squares overflow, and the quotient is that of an infinity by
  an infinity. The vector \<open>[2 ^ -600]\<close> against itself scores 0 although its norm is not
  zero and the quotient of the reals is 1: the squares underflow to 0.
\<close>

theorem cosineSimilarity_not_cosine:
  "cosineSimilarity_f64 [Fin 1] [Fin 1, Fin 1] = Some (Fin 1)
   \<and> cosineSimilarity_lib_f64 [Fin 1] [Fin 1, Fin 1] = Some (Fin 1)
   \<and> spec_dot [1] [1, 1] / (spec_norm [1] * spec_norm [1, 1]) = 1 / sqrt 2
   \<and> 1 / sqrt 2 \<noteq> (1 :: real)
   \<and> cosineSimilarity_f64 [Fin huge] [Fin huge] = Some NaN
   \<and> cosineSimilarity_lib_f64 [Fin huge] [Fin huge] = Some NaN
   \<and> cosineSimilarity_f64 [Fin tiny] [Fin tiny] = Some (Fin 0)
   \<and> cosineSimilarity_lib_f64 [Fin tiny] [Fin tiny] = Some (Fin 0)
   \<and> spec_norm [tiny] \<noteq> 0 \<and> spec_cosine [tiny] [tiny] = 1"
proof -
  have 1: "cosineSimilarity_f64 [Fin 1] [Fin 1, Fin 1] = Some (Fin 1)"
    by (simp add: cosineSimilarity_f64_def nth_or_zero_f64_def or_zero_def Let_def)
  have 2: "cosineSimilarity_lib_f64 [Fin 1] [Fin 1, Fin 1] = Some (Fin 1)"
    by (simp add: cosineSimilarity_lib_f64_def slice_def)
  have 3: "spec_dot [1] [1, 1] / (spec_norm [1] * spec_norm [1, 1]) = 1 / sqrt 2"
    "1 / sqrt 2 \<noteq> (1 :: real)"
    by (simp_all add: spec_norm_def spec_dot_def)
  have 4: "cosineSimilarity_f64 [Fin huge] [Fin huge] = Some NaN"
    by (simp add: cosineSimilarity_f64_def nth_or_zero_f64_def or_zero_def Let_def
        round64_overflow)
  have 5: "cosineSimilarity_lib_f64 [Fin huge] [Fin huge] = Some NaN"
    by (simp add: cosineSimilarity_lib_f64_def round64_overflow)
  have 6: "cosineSimilarity_f64 [Fin tiny] [Fin tiny] = Some (Fin 0)"
    by (simp add: cosineSimilarity_f64_def nth_or_zero_f64_def or_zero_def Let_def
        round64_underflow)
  have 7: "cosineSimilarity_lib_f64 [Fin tiny] [Fin tiny] = Some (Fin 0)"
    by (simp add: cosineSimilarity_lib_f64_def round64_underflow)
  have 8: "spec_norm [tiny] \<noteq> 0" "spec_cosine [tiny] [tiny] = 1"
    using tiny_pos by (simp_all add: spec_cosine_def spec_norm_def spec_dot_def)
  from 1 2 3 4 5 6 7 8 show ?thesis by (simp only: simp_thms)
qed

section \<open>Properties of the retriever\<close>

subsection \<open>Example data\<close>

definition embedded_chunk :: chunk where
  "embedded_chunk = example_chunk \<lparr> embedding := Some [1, 0] \<rparr>"

definition embedded_bundle :: doc_bundle where
  "embedded_bundle = \<lparr> bundle_id = ''bundle-x'', chunks = Some [embedded_chunk] \<rparr>"

text \<open>An endpoint that fails on every request.\<close>

definition failing_env :: env where
  "failing_env = \<lparr> embed_api = (\<lambda>n texts. Inl RequestFailed), sha1_hex = (\<lambda>s. []) \<rparr>"

definition start_world :: world where
  "start_world = \<lparr> embed_calls = 0, saved_bundles = [] \<rparr>"

subsection \<open>Embeddings already present\<close>

lemma ensure_noop:
  assumes "chunks b = Some cs" "\<forall>c\<in>set cs. embedding c \<noteq> None"
  shows "ensureBundleEmbeddings e w b = (None, b, w)"
proof -
  have "filter (\<lambda>k. embedding (cs ! k) = None) [0..<length cs] = []"
    using assms(2) by (auto simp: filter_empty_conv)
  then show ?thesis using assms(1) by (simp add: ensureBundleEmbeddings_def)
qed

text \<open>
  C9. On a bundle in which every chunk has an embedding, \<open>ensureBundleEmbeddings\<close>
  issues no request, saves nothing and returns the bundle unchanged; a second call
  therefore does the same as the first.
\<close>

theorem ensureBundleEmbeddings_idempotent:
  assumes "chunks b = Some cs" and "\<forall>c\<in>set cs. embedding c \<noteq> None"
  shows "ensureBundleEmbeddings e w b = (None, b, w)
         \<and> (case ensureBundleEmbeddings e w b of
               (r, b', w') \<Rightarrow> ensureBundleEmbeddings e w' b' = (r, b', w'))"
  using ensure_noop [OF assms] by simp

theorem ensureBundleEmbeddings_idempotent_witness:
  "chunks embedded_bundle = Some [embedded_chunk]
   \<and> embedding embedded_chunk = Some [1, 0]
   \<and> ensureBundleEmbeddings failing_env start_world embedded_bundle
       = (None, embedded_bundle, start_world)"
proof -
  have 1: "chunks embedded_bundle = Some [embedded_chunk]"
    by (simp add: embedded_bundle_def)
  have 2: "\<forall>c\<in>set [embedded_chunk]. embedding c \<noteq> None"
    by (simp add: embedded_chunk_def)
  from ensureBundleEmbeddings_idempotent [OF 1 2, of failing_env start_world]
  show ?thesis using 1 by (simp add: embedded_chunk_def)
qed

subsection \<open>Requests and failures\<close>

text \<open>
  A bundle of two chunks without embeddings, and an endpoint whose first request fails and
  whose later requests return one vector for each text.
\<close>

definition second_chunk :: chunk where
  "second_chunk =
     \<lparr> chunk_id = ''bundle-x-chunk-002'', chunk_text = ''Either party may terminate.'',
       embedding = None, embedding_id = None \<rparr>"

definition two_chunk_bundle :: doc_bundle where
  "two_chunk_bundle = \<lparr> bundle_id = ''bundle-x'', chunks = Some [example_chunk, second_chunk] \<rparr>"

definition flaky_env :: env where
  "flaky_env =
     \<lparr> embed_api = (\<lambda>n texts. if n = 0 then Inl RequestFailed
                                 else Inr (map (\<lambda>t. Some [1, 0]) texts)),
       sha1_hex = (\<lambda>s. []) \<rparr>"

lemma length_missing:
  "length (filter (\<lambda>k. P (cs ! k)) [0..<length cs]) = length (filter P cs)"
proof -
  have "filter P (map ((!) cs) [0..<length cs]) = map ((!) cs) (filter (P \<circ> (!) cs) [0..<length cs])"
    by (rule filter_map)
  then have "length (filter P cs) = length (filter (P \<circ> (!) cs) [0..<length cs])"
    by (simp add: map_nth)
  then show ?thesis by (simp add: comp_def)
qed

lemma embed_batches_calls:
  "embed_batches e w cs miss i = (r, cs', w') \<Longrightarrow>
     embed_calls w' \<le> embed_calls w + (length miss - i + 15) div 16
     \<and> saved_bundles w' = saved_bundles w"
proof (induction e w cs miss i arbitrary: r cs' w' rule: embed_batches.induct)
  case (1 e w cs miss i)
  show ?case
  proof (cases "i < length miss")
    case False
    with "1.prems" show ?thesis by (simp add: embed_batches.simps [of e w cs miss i])
  next
    case True
    define batch where "batch = slice miss i (i + BATCH)"
    define texts where "texts = map (\<lambda>k. chunk_text (cs ! k)) batch"
    define w1 where "w1 = w \<lparr> embed_calls := Suc (embed_calls w) \<rparr>"
    have call: "callOpenAIEmbeddings e w texts = (embed_api e (embed_calls w) texts, w1)"
      by (simp add: callOpenAIEmbeddings_def w1_def)
    show ?thesis
    proof (cases "embed_api e (embed_calls w) texts")
      case (Inl err)
      with True "1.prems" call have "w' = w1"
        by (simp add: embed_batches.simps [of e w cs miss i] batch_def texts_def Let_def)
      moreover have "1 \<le> (length miss - i + 15) div 16"
        using True by arith
      ultimately show ?thesis by (simp add: w1_def)
    next
      case (Inr embs)
      with True "1.prems" call
      have rec: "embed_batches e w1 (assign_batch e cs batch embs 0) miss (i + BATCH) = (r, cs', w')"
        by (simp add: embed_batches.simps [of e w cs miss i] batch_def texts_def Let_def)
      have "embed_calls w' \<le> embed_calls w1 + (length miss - (i + BATCH) + 15) div 16
            \<and> saved_bundles w' = saved_bundles w1"
        using "1.IH" [OF True batch_def texts_def refl call [symmetric] Inr rec] .
      then have ih: "embed_calls w' \<le> Suc (embed_calls w) + (length miss - (i + 16) + 15) div 16"
        "saved_bundles w' = saved_bundles w"
        by (simp_all add: w1_def BATCH_def)
      have "Suc ((length miss - (i + 16) + 15) div 16) \<le> (length miss - i + 15) div 16"
      proof (cases "16 \<le> length miss - i")
        case True
        then have "length miss - (i + 16) + 15 + 16 = length miss - i + 15" by simp
        then have "(length miss - i + 15) div 16 = (length miss - (i + 16) + 15 + 16) div 16"
          by simp
        also have "\<dots> = Suc ((length miss - (i + 16) + 15) div 16)"
          by (simp only: div_add_self2)
        finally show ?thesis by simp
      next
        case False
        then have "length miss - (i + 16) = 0" by simp
        moreover have "16 div 16 \<le> (length miss - i + 15) div (16::nat)"
          using \<open>i < length miss\<close> by (intro div_le_mono) simp
        ultimately show ?thesis by simp
      qed
      with ih show ?thesis by linarith
    qed
  qed
qed

lemma ensure_calls:
  assumes "chunks b = Some cs" "ensureBundleEmbeddings e w b = (r, b', w')"
  shows "embed_calls w' \<le> embed_calls w + (length (filter (\<lambda>c. embedding c = None) cs) + 15) div 16"
proof -
  let ?miss = "filter (\<lambda>k. embedding (cs ! k) = None) [0..<length cs]"
  have len: "length ?miss = length (filter (\<lambda>c. embedding c = None) cs)"
    by (rule length_missing)
  show ?thesis
  proof (cases "?miss = []")
    case True
    with assms show ?thesis by (simp add: ensureBundleEmbeddings_def)
  next
    case False
    obtain r1 cs1 w1 where eb: "embed_batches e w cs ?miss 0 = (r1, cs1, w1)"
      by (cases "embed_batches e w cs ?miss 0") auto
    from embed_batches_calls [OF eb] len
    have "embed_calls w1 \<le> embed_calls w + (length (filter (\<lambda>c. embedding c = None) cs) + 15) div 16"
      by simp
    moreover from assms False eb have "embed_calls w' = embed_calls w1"
      by (cases r1) (auto simp: ensureBundleEmbeddings_def saveBundle_def)
    ultimately show ?thesis by simp
  qed
qed

lemma ensure_first_failure:
  assumes "chunks b = Some cs" "\<exists>c\<in>set cs. embedding c = None"
    and "\<forall>t. embed_api e (embed_calls w) t = Inl err"
  shows "ensureBundleEmbeddings e w b = (Some err, b, w \<lparr> embed_calls := Suc (embed_calls w) \<rparr>)"
proof -
  let ?miss = "filter (\<lambda>k. embedding (cs ! k) = None) [0..<length cs]"
  from assms(2) obtain k where "k < length cs" "embedding (cs ! k) = None"
    by (auto simp: in_set_conv_nth)
  then have ne: "?miss \<noteq> []" by (auto simp: filter_empty_conv)
  then have "embed_batches e w cs ?miss 0 = (Some err, cs, w \<lparr> embed_calls := Suc (embed_calls w) \<rparr>)"
    using assms(3)
    by (simp add: embed_batches.simps [of e w cs ?miss 0] callOpenAIEmbeddings_def Let_def)
  moreover have "b \<lparr> chunks := Some cs \<rparr> = b" using assms(1) by simp
  ultimately show ?thesis using assms(1) ne by (simp add: ensureBundleEmbeddings_def)
qed

lemma withRetry_loop_bound:
  "withRetry_loop fn retries attempt delays = (r, n, ds) \<Longrightarrow>
     attempt < n \<and> n \<le> max (Suc attempt) (Suc retries)
     \<and> ds = delays @ map (\<lambda>k. RETRY_BACKOFF_MS * 2 ^ k) [attempt..<n - 1]"
proof (induction fn retries attempt delays arbitrary: r n ds rule: withRetry_loop.induct)
  case (1 fn retries attempt delays)
  show ?case
  proof (cases "fn attempt")
    case (Inr v)
    with "1.prems" show ?thesis by (auto simp: withRetry_loop.simps [of fn retries attempt])
  next
    case (Inl err)
    show ?thesis
    proof (cases "Suc attempt > retries")
      case True
      with Inl "1.prems" show ?thesis by (auto simp: withRetry_loop.simps [of fn retries attempt])
    next
      case False
      with Inl "1.prems"
      have rec: "withRetry_loop fn retries (Suc attempt)
                   (delays @ [RETRY_BACKOFF_MS * 2 ^ (Suc attempt - 1)]) = (r, n, ds)"
        by (simp add: withRetry_loop.simps [of fn retries attempt])
      from "1.IH" [OF Inl False rec]
      have ih: "Suc attempt < n" "n \<le> max (Suc (Suc attempt)) (Suc retries)"
        "ds = (delays @ [RETRY_BACKOFF_MS * 2 ^ (Suc attempt - 1)])
              @ map (\<lambda>k. RETRY_BACKOFF_MS * 2 ^ k) [Suc attempt..<n - 1]"
        by auto
      from ih(1) have "[attempt..<n - 1] = attempt # [Suc attempt..<n - 1]"
        by (simp add: upt_conv_Cons)
      with ih False show ?thesis by auto
    qed
  qed
qed

lemma withRetry_all_fail:
  assumes "\<forall>n. fn n = Inl x"
  shows "withRetry fn MAX_RETRIES = (Inl x, 4, [500, 1000, 2000])"
proof -
  have f: "\<And>n. fn n = Inl x" using assms by simp
  have 3: "withRetry_loop fn 3 (Suc (Suc (Suc 0))) [500, 1000, 2000] = (Inl x, 4, [500, 1000, 2000])"
    by (subst withRetry_loop.simps) (simp add: f)
  have 2: "withRetry_loop fn 3 (Suc (Suc 0)) [500, 1000] = (Inl x, 4, [500, 1000, 2000])"
    by (subst withRetry_loop.simps) (simp add: f 3 RETRY_BACKOFF_MS_def)
  have 1: "withRetry_loop fn 3 (Suc 0) [500] = (Inl x, 4, [500, 1000, 2000])"
    by (subst withRetry_loop.simps) (simp add: f 2 RETRY_BACKOFF_MS_def)
  have 0: "withRetry_loop fn 3 0 [] = (Inl x, 4, [500, 1000, 2000])"
    by (subst withRetry_loop.simps) (simp add: f 1 RETRY_BACKOFF_MS_def)
  then show ?thesis by (simp add: withRetry_def MAX_RETRIES_def)
qed

text \<open>
  C8, as stated, fails: the first request fails, a second one would succeed, and
  \<open>ensureBundleEmbeddings\<close> returns the error after one request, with no chunk
  embedded.
\<close>

theorem failed_request_not_retried:
  "ensureBundleEmbeddings flaky_env start_world two_chunk_bundle
     = (Some RequestFailed, two_chunk_bundle, start_world \<lparr> embed_calls := 1 \<rparr>)
   \<and> fst (ensureBundleEmbeddings flaky_env (start_world \<lparr> embed_calls := 1 \<rparr>) two_chunk_bundle)
     = None"
  by code_simp

text \<open>
  C8, as amended. \<open>ensureBundleEmbeddings\<close> issues at most one request for each batch
  of 16 chunks without embedding, and does not retry: when the first request fails, the
  call returns that error after this one request, with the bundle unchanged and nothing
  saved. The retry with exponential backoff is \<open>withRetry\<close> of the embeddings library,
  which \<open>ensureBundleEmbeddings\<close> does not call: it makes at most 4 calls (one and 3
  retries) and waits 500 ms doubled at each retry.
\<close>

theorem ensureBundleEmbeddings_no_retry:
  assumes "chunks b = Some cs"
  shows "(case ensureBundleEmbeddings e w b of
            (r, b', w') \<Rightarrow>
              embed_calls w' \<le> embed_calls w
                + (length (filter (\<lambda>c. embedding c = None) cs) + 15) div 16)
         \<and> ((\<exists>c\<in>set cs. embedding c = None) \<and> (\<forall>t. embed_api e (embed_calls w) t = Inl err) \<longrightarrow>
              ensureBundleEmbeddings e w b
                = (Some err, b, w \<lparr> embed_calls := Suc (embed_calls w) \<rparr>))
         \<and> (case withRetry fn MAX_RETRIES of
               (r, n, ds) \<Rightarrow> n \<le> 4 \<and> ds = map (\<lambda>k. 500 * 2 ^ k) [0..<n - 1])
         \<and> ((\<forall>n. fn n = Inl x) \<longrightarrow> withRetry fn MAX_RETRIES = (Inl x, 4, [500, 1000, 2000]))"
proof -
  have A: "case ensureBundleEmbeddings e w b of
            (r, b', w') \<Rightarrow>
              embed_calls w' \<le> embed_calls w
                + (length (filter (\<lambda>c. embedding c = None) cs) + 15) div 16"
    using ensure_calls [OF assms] by (cases "ensureBundleEmbeddings e w b") auto
  have B: "(\<exists>c\<in>set cs. embedding c = None) \<and> (\<forall>t. embed_api e (embed_calls w) t = Inl err) \<longrightarrow>
              ensureBundleEmbeddings e w b
                = (Some err, b, w \<lparr> embed_calls := Suc (embed_calls w) \<rparr>)"
    using ensure_first_failure [OF assms] by blast
  obtain r2 n ds where wr: "withRetry fn MAX_RETRIES = (r2, n, ds)"
    by (cases "withRetry fn MAX_RETRIES") auto
  from withRetry_loop_bound [of fn MAX_RETRIES 0 "[]" r2 n ds] wr
  have "n \<le> 4 \<and> ds = map (\<lambda>k. 500 * 2 ^ k) [0..<n - 1]"
    by (simp add: withRetry_def MAX_RETRIES_def RETRY_BACKOFF_MS_def)
  with wr have C: "case withRetry fn MAX_RETRIES of
               (r, n, ds) \<Rightarrow> n \<le> 4 \<and> ds = map (\<lambda>k. 500 * 2 ^ k) [0..<n - 1]"
    by simp
  have D: "(\<forall>n. fn n = Inl x) \<longrightarrow> withRetry fn MAX_RETRIES = (Inl x, 4, [500, 1000, 2000])"
    using withRetry_all_fail [of fn x] by blast
  from A B C D show ?thesis by (intro conjI)
qed

theorem ensureBundleEmbeddings_no_retry_witness:
  "chunks two_chunk_bundle = Some [example_chunk, second_chunk]
   \<and> embedding second_chunk = None
   \<and> ensureBundleEmbeddings failing_env start_world two_chunk_bundle
       = (Some RequestFailed, two_chunk_bundle, start_world \<lparr> embed_calls := 1 \<rparr>)
   \<and> withRetry (\<lambda>n. Inl RequestFailed :: api_error + unit) MAX_RETRIES
       = (Inl RequestFailed, 4, [500, 1000, 2000])"
proof -
  have 1: "chunks two_chunk_bundle = Some [example_chunk, second_chunk]"
    by (simp add: two_chunk_bundle_def)
  have 2: "embedding second_chunk = None" by (simp add: second_chunk_def)
  have 3: "\<forall>t. embed_api failing_env (embed_calls start_world) t = Inl RequestFailed"
    by (simp add: failing_env_def)
  from ensureBundleEmbeddings_no_retry [OF 1, where e = failing_env and w = start_world
      and err = RequestFailed and fn = "\<lambda>n. Inl RequestFailed :: api_error + unit"
      and x = RequestFailed] 2 3
  show ?thesis using 1 by (simp add: start_world_def)
qed

subsection \<open>Ranking\<close>

lemma with_snippet_simps [simp]:
  "score (with_snippet s) = score s" "sc_chunk (with_snippet s) = sc_chunk s"
  by (simp_all add: with_snippet_def scored.defs retrieved.defs)


















subsection \<open>Chunks without embedding\<close>











end
